theory Spec2Isabelle
  imports Main "HOL-Library.Sublist"
begin

section \<open>Paths and strings: the library functions of \<^verbatim>\<open>main.go\<close>\<close>

text \<open>
  \<^verbatim>\<open>cmd/jsonnetize/main.go\<close> builds every path with \<^verbatim>\<open>filepath.Join\<close>,
  \<^verbatim>\<open>filepath.Dir\<close> and \<^verbatim>\<open>filepath.IsAbs\<close> and classifies references with
  \<^verbatim>\<open>strings.LastIndex\<close>. They are pure functions of Go's standard library (Unix
  flavour, separator \<^verbatim>\<open>/\<close>); a Go \<^verbatim>\<open>string\<close> is a byte sequence, here a
  \<^typ>\<open>string\<close>.
\<close>

text \<open>\<^verbatim>\<open>strings.Split(s, "/")\<close>: the pieces between separators, empty ones included.\<close>

fun split_sep :: "string \<Rightarrow> string list" where
  "split_sep [] = [[]]"
| "split_sep (c # cs) =
     (if c = CHR ''/'' then [] # split_sep cs
      else (case split_sep cs of [] \<Rightarrow> [[c]] | x # xs \<Rightarrow> (c # x) # xs))"

text \<open>\<^verbatim>\<open>strings.Join(elems, "/")\<close>.\<close>

fun join_sep :: "string list \<Rightarrow> string" where
  "join_sep [] = []"
| "join_sep [x] = x"
| "join_sep (x # y # ys) = x @ CHR ''/'' # join_sep (y # ys)"

text \<open>
  The scan of \<^verbatim>\<open>filepath.Clean\<close>, element by element. \<open>out\<close> holds the elements written
  so far. An empty element and \<^verbatim>\<open>.\<close> are skipped. At \<^verbatim>\<open>..\<close> the last written element is
  removed when there is one that is not itself \<^verbatim>\<open>..\<close> (Go: \<^verbatim>\<open>out.w > dotdot\<close>); otherwise
  \<^verbatim>\<open>..\<close> is written when the path is not rooted, and dropped when it is.
\<close>

fun clean_elems :: "bool \<Rightarrow> string list \<Rightarrow> string list \<Rightarrow> string list" where
  "clean_elems rooted out [] = out"
| "clean_elems rooted out (e # es) =
     (if e = [] \<or> e = ''.'' then clean_elems rooted out es
      else if e = ''..'' then
        (if out \<noteq> [] \<and> last out \<noteq> ''..'' then clean_elems rooted (butlast out) es
         else if \<not> rooted then clean_elems rooted (out @ [''..'']) es
         else clean_elems rooted out es)
      else clean_elems rooted (out @ [e]) es)"

definition Clean :: "string \<Rightarrow> string" where
  "Clean path =
     (if path = [] then ''.''
      else
        let rooted = (hd path = CHR ''/'');
            out = join_sep (clean_elems rooted [] (split_sep path))
        in if rooted then CHR ''/'' # out
           else if out = [] then ''.'' else out)"

text \<open>
  \<^verbatim>\<open>filepath.Join\<close>: the elements from the first non-empty one on are joined with the
  separator and cleaned; when every element is empty the result is the empty string.
\<close>

definition Join :: "string list \<Rightarrow> string" where
  "Join elem =
     (case dropWhile (\<lambda>e. e = []) elem of
        [] \<Rightarrow> []
      | es \<Rightarrow> Clean (join_sep es))"

text \<open>\<^verbatim>\<open>filepath.Dir\<close>: the path up to and including its last separator, cleaned.\<close>

definition Dir :: "string \<Rightarrow> string" where
  "Dir path = Clean (rev (dropWhile (\<lambda>c. c \<noteq> CHR ''/'') (rev path)))"

text \<open>\<^verbatim>\<open>filepath.IsAbs\<close> on Unix: \<^verbatim>\<open>strings.HasPrefix(path, "/")\<close>.\<close>

definition IsAbs :: "string \<Rightarrow> bool" where
  "IsAbs path = prefix ''/'' path"

text \<open>
  The \<^verbatim>\<open>basename\<close> of package \<^verbatim>\<open>os\<close>, which gives \<^verbatim>\<open>FileInfo.Name()\<close>: trailing
  separators are removed (never the first byte), then everything up to the last separator.
\<close>

fun strip_trailing_sep :: "string \<Rightarrow> string" where
  "strip_trailing_sep [] = []"
| "strip_trailing_sep [c] = [c]"
| "strip_trailing_sep (c # d # ds) =
     (case strip_trailing_sep (d # ds) of
        [] \<Rightarrow> [c]
      | [e] \<Rightarrow> (if e = CHR ''/'' then [c] else [c, e])
      | e # es \<Rightarrow> c # e # es)"

definition basename :: "string \<Rightarrow> string" where
  "basename name =
     (let n = strip_trailing_sep name
      in if n = ''/'' then n else last (split_sep n))"

text \<open>
  \<^verbatim>\<open>strings.LastIndex(s, substr)\<close>: the index of the last occurrence of \<open>substr\<close> in
  \<open>s\<close>, or \<open>-1\<close> when there is none. A Go \<^verbatim>\<open>int\<close> is signed, so the result and
  \<^verbatim>\<open>len(s) - 8\<close> below are modelled in \<^typ>\<open>int\<close>.
\<close>

definition LastIndex :: "string \<Rightarrow> string \<Rightarrow> int" where
  "LastIndex s substr =
     (if length s < length substr then - 1
      else
        (case filter (\<lambda>i. take (length substr) (drop i s) = substr)
                (rev [0 ..< Suc (length s - length substr)]) of
           [] \<Rightarrow> - 1
         | i # _ \<Rightarrow> int i))"

section \<open>Data model\<close>

text \<open>
  \<^verbatim>\<open>type Jsonnetizer struct { Base string; Output string }\<close> and the two constants of
  \<^verbatim>\<open>KustomizeType\<close> with their names in \<^verbatim>\<open>kustTypeMap\<close>.
\<close>

record Jsonnetizer =
  Base :: string
  Output :: string

datatype KustomizeType = ResourceType | PluginType

fun kustTypeMap :: "KustomizeType \<Rightarrow> string" where
  "kustTypeMap ResourceType = ''Resource''"
| "kustTypeMap PluginType = ''Plugin''"

text \<open>
  \<^verbatim>\<open>types.Kustomization\<close> of the kustomize API: the three reference lists
  \<^verbatim>\<open>main.go\<close> reads and rewrites; \<open>Other\<close> stands for all its remaining fields, which
  \<^verbatim>\<open>main.go\<close> never touches. A nil slice and an empty one are both \<open>[]\<close>.
\<close>

record Kustomization =
  Resources :: "string list"
  Generators :: "string list"
  Transformers :: "string list"
  Other :: string

text \<open>
  Every error value \<^verbatim>\<open>main.go\<close> returns or dies with:
  \<^item> \<open>PathError op path\<close>: the \<^verbatim>\<open>*os.PathError\<close> of a failed call of package \<^verbatim>\<open>os\<close>,
    with the operation and the path given to the call (the errno is not modelled);
  \<^item> \<open>ExecError name\<close>: \<^verbatim>\<open>exec\<close> could not start the command or it exited non-zero;
  \<^item> \<open>YamlError\<close>: \<^verbatim>\<open>yaml.Unmarshal\<close> or \<^verbatim>\<open>yaml.Marshal\<close> failed;
  \<^item> \<open>EmptyPath root\<close>: \<^verbatim>\<open>fmt.Errorf("empty path as %s", root)\<close>;
  \<^item> \<open>NoKustFile root\<close>: \<^verbatim>\<open>fmt.Errorf("couldn't find kustomization file in %s", root)\<close>;
  \<^item> \<open>NotAFile path\<close>: \<^verbatim>\<open>fmt.Errorf("%s is not a file", path)\<close>;
  \<^item> \<open>NotEnoughArgs\<close> and \<open>BadArgument\<close>: the two \<^verbatim>\<open>log.Fatalln\<close> messages of
    \<^verbatim>\<open>main\<close> that carry no error value.
\<close>

datatype error =
    PathError string string
  | ExecError string
  | YamlError
  | EmptyPath string
  | NoKustFile string
  | NotAFile string
  | NotEnoughArgs
  | BadArgument

section \<open>The world: file system, processes, log\<close>

text \<open>
  The file system is a map from absolute paths (lists of names, the root being \<open>[]\<close>) to
  nodes: directories and regular files with their bytes. There are no symbolic links, no
  permissions and no quotas, so a call fails only for a missing or wrongly-typed node.
\<close>

datatype node = Directory | Regular string

type_synonym fsys = "string list \<Rightarrow> node option"

text \<open>
  Every call of package \<^verbatim>\<open>os\<close>, \<^verbatim>\<open>io\<close>, \<^verbatim>\<open>ioutil\<close> and \<^verbatim>\<open>exec\<close> is recorded, with the
  arguments as given, whether it succeeds or fails.
\<close>

datatype action =
    StatCall string
  | LstatCall string
  | MkdirAllCall string
  | OpenCall string
  | CreateCall string
  | CopyCall "string list" "string list"
  | ReadFileCall string
  | WriteCall "string list" string
  | ExecCall string "string list"

record world =
  cwd :: "string list"
  files :: fsys
  trace :: "action list"
  logged :: "string list"
  stdout :: string

text \<open>
  What \<^verbatim>\<open>main.go\<close> reads of an \<^verbatim>\<open>os.FileInfo\<close>: \<^verbatim>\<open>Name()\<close>, \<^verbatim>\<open>IsDir()\<close> and
  \<^verbatim>\<open>Mode().IsRegular()\<close>.
\<close>

record FileInfo =
  Name :: string
  IsDir :: bool
  IsRegular :: bool

definition fileinfo :: "string \<Rightarrow> node \<Rightarrow> FileInfo" where
  "fileinfo name n =
     \<lparr>Name = basename name, IsDir = (n = Directory), IsRegular = (n \<noteq> Directory)\<rparr>"

definition traced :: "action \<Rightarrow> world \<Rightarrow> world" where
  "traced a w = w\<lparr>trace := trace w @ [a]\<rparr>"

text \<open>\<^verbatim>\<open>log.Printf\<close> and \<^verbatim>\<open>log.Println\<close>: the message is appended to the log.\<close>

definition log_Printf :: "string \<Rightarrow> world \<Rightarrow> world" where
  "log_Printf msg w = w\<lparr>logged := logged w @ [msg]\<rparr>"

text \<open>
  The absolute path a path string names: a relative one starts at the working directory;
  empty names and \<^verbatim>\<open>.\<close> are skipped and \<^verbatim>\<open>..\<close> steps up (staying at the root).
\<close>

definition locate :: "world \<Rightarrow> string \<Rightarrow> string list" where
  "locate w name =
     clean_elems True [] ((if IsAbs name then [] else cwd w) @ split_sep name)"

definition node_of :: "fsys \<Rightarrow> string list \<Rightarrow> node option" where
  "node_of fs p = (if p = [] then Some Directory else fs p)"

text \<open>The node a path string names; the empty string names nothing.\<close>

definition node_at :: "world \<Rightarrow> string \<Rightarrow> node option" where
  "node_at w name = (if name = [] then None else node_of (files w) (locate w name))"

text \<open>\<^verbatim>\<open>os.Stat\<close> and \<^verbatim>\<open>os.Lstat\<close> (the same without symbolic links).\<close>

definition os_Stat :: "string \<Rightarrow> world \<Rightarrow> (error + FileInfo) \<times> world" where
  "os_Stat name w =
     (case node_at w name of
        None \<Rightarrow> Inl (PathError ''stat'' name)
      | Some n \<Rightarrow> Inr (fileinfo name n),
      traced (StatCall name) w)"

definition os_Lstat :: "string \<Rightarrow> world \<Rightarrow> (error + FileInfo) \<times> world" where
  "os_Lstat name w =
     (case node_at w name of
        None \<Rightarrow> Inl (PathError ''lstat'' name)
      | Some n \<Rightarrow> Inr (fileinfo name n),
      traced (LstatCall name) w)"

text \<open>
  \<^verbatim>\<open>os.MkdirAll\<close>: walking down from the root (\<open>pre\<close> is the part walked), every missing
  directory is created; a regular file on the way is the error, and the directories made
  before it stay.
\<close>

fun mkdir_path :: "fsys \<Rightarrow> string list \<Rightarrow> string list \<Rightarrow> bool \<times> fsys" where
  "mkdir_path fs pre [] = (True, fs)"
| "mkdir_path fs pre (c # cs) =
     (case fs (pre @ [c]) of
        Some Directory \<Rightarrow> mkdir_path fs (pre @ [c]) cs
      | Some (Regular _) \<Rightarrow> (False, fs)
      | None \<Rightarrow> mkdir_path (fs(pre @ [c] \<mapsto> Directory)) (pre @ [c]) cs)"

definition os_MkdirAll :: "string \<Rightarrow> world \<Rightarrow> error option \<times> world" where
  "os_MkdirAll name w =
     (let w1 = traced (MkdirAllCall name) w
      in if name = [] then (Some (PathError ''mkdir'' name), w1)
         else
           (case mkdir_path (files w1) [] (locate w1 name) of
              (ok, fs) \<Rightarrow>
                (if ok then None else Some (PathError ''mkdir'' name), w1\<lparr>files := fs\<rparr>)))"

text \<open>
  \<^verbatim>\<open>os.Open\<close>: any existing node opens for reading, a directory too. An open file is
  modelled by the absolute path of its node (nothing is ever removed or renamed).
\<close>

definition os_Open :: "string \<Rightarrow> world \<Rightarrow> (error + string list) \<times> world" where
  "os_Open name w =
     (case node_at w name of
        None \<Rightarrow> Inl (PathError ''open'' name)
      | Some _ \<Rightarrow> Inr (locate w name),
      traced (OpenCall name) w)"

text \<open>
  \<^verbatim>\<open>os.Create\<close>: the parent must be an existing directory (no directory is created) and
  the path must not name a directory; the file is created, or truncated when it exists.
\<close>

definition os_Create :: "string \<Rightarrow> world \<Rightarrow> (error + string list) \<times> world" where
  "os_Create name w =
     (let w1 = traced (CreateCall name) w; p = locate w1 name
      in if name = [] \<or> p = [] \<or> node_of (files w1) (butlast p) \<noteq> Some Directory
            \<or> node_of (files w1) p = Some Directory
         then (Inl (PathError ''open'' name), w1)
         else (Inr p, w1\<lparr>files := (files w1)(p \<mapsto> Regular [])\<rparr>))"

text \<open>
  \<^verbatim>\<open>(*os.File).Write\<close> on a file from \<^verbatim>\<open>os.Create\<close>: the bytes are appended to what the
  file holds (each such file is written once, right after its truncation).
\<close>

definition file_Write :: "string list \<Rightarrow> string \<Rightarrow> world \<Rightarrow> error option \<times> world" where
  "file_Write f bytes w =
     (let w1 = traced (WriteCall f bytes) w
      in case node_of (files w1) f of
           Some (Regular old) \<Rightarrow> (None, w1\<lparr>files := (files w1)(f \<mapsto> Regular (old @ bytes))\<rparr>)
         | _ \<Rightarrow> (Some (PathError ''write'' (CHR ''/'' # join_sep f)), w1))"

text \<open>
  \<^verbatim>\<open>io.Copy(dst, src)\<close>: the bytes \<open>src\<close> holds now are read and written to \<open>dst\<close>;
  reading a directory fails.
\<close>

definition io_Copy :: "string list \<Rightarrow> string list \<Rightarrow> world \<Rightarrow> error option \<times> world" where
  "io_Copy dst src w =
     (let w1 = traced (CopyCall dst src) w
      in case node_of (files w1) src of
           Some (Regular bytes) \<Rightarrow>
             (case node_of (files w1) dst of
                Some (Regular old) \<Rightarrow>
                  (None, w1\<lparr>files := (files w1)(dst \<mapsto> Regular (old @ bytes))\<rparr>)
              | _ \<Rightarrow> (Some (PathError ''write'' (CHR ''/'' # join_sep dst)), w1))
         | _ \<Rightarrow> (Some (PathError ''read'' (CHR ''/'' # join_sep src)), w1))"

text \<open>\<^verbatim>\<open>ioutil.ReadFile\<close>.\<close>

definition ioutil_ReadFile :: "string \<Rightarrow> world \<Rightarrow> (error + string) \<times> world" where
  "ioutil_ReadFile name w =
     (case node_at w name of
        None \<Rightarrow> Inl (PathError ''open'' name)
      | Some Directory \<Rightarrow> Inl (PathError ''read'' name)
      | Some (Regular bytes) \<Rightarrow> Inr bytes,
      traced (ReadFileCall name) w)"

section \<open>The collaborators outside the repository\<close>

text \<open>
  \<^verbatim>\<open>main.go\<close> calls four things whose code is not the repository's. They are parameters
  of the model, and every theorem below holds for all of them:
  \<^item> \<open>url_Parse\<close>: \<^verbatim>\<open>net/url.Parse\<close>, as far as \<^verbatim>\<open>main.go\<close> looks at it: \<open>None\<close> when it
    returns an error, else the \<^verbatim>\<open>Scheme\<close> of the URL;
  \<^item> \<open>yaml_Unmarshal\<close> and \<open>yaml_Marshal\<close>: \<^verbatim>\<open>gopkg.in/yaml.v1\<close> on
    \<^verbatim>\<open>types.Kustomization\<close>, \<open>None\<close> for an error;
  \<^item> \<open>jsonnet\<close>: what the \<^verbatim>\<open>jsonnet\<close> program makes of a source path in a file system
    seen from a working directory: its combined output, and the rendered bytes unless it
    fails;
  \<^item> \<open>kustomize\<close>: \<^verbatim>\<open>kustomize build --enable_alpha_plugins root\<close>: \<open>None\<close> when the
    program cannot be started, else its standard output, its standard error and whether
    it exited with status zero.
\<close>

record env =
  url_Parse :: "string \<Rightarrow> string option"
  yaml_Unmarshal :: "string \<Rightarrow> Kustomization option"
  yaml_Marshal :: "Kustomization \<Rightarrow> string option"
  jsonnet :: "fsys \<Rightarrow> string list \<Rightarrow> string \<Rightarrow> string \<times> string option"
  kustomize :: "fsys \<Rightarrow> string list \<Rightarrow> string \<Rightarrow> (string \<times> string \<times> bool) option"

text \<open>
  Modelled from the spec: the renderer is an external process "taking a source template
  path and an explicit output path, producing a literal manifest fragment at that output
  path"; "a non-zero exit is a hard error". \<^verbatim>\<open>exec.Command("jsonnet", "-o", outputFile,
  qPath).CombinedOutput()\<close> gives the combined output and the error; the run is recorded,
  and on success the rendered bytes are the content of \<open>outputFile\<close>, which the renderer
  creates as \<^verbatim>\<open>os.Create\<close> would (it fails when it cannot).
\<close>

definition run_jsonnet :: "env \<Rightarrow> string \<Rightarrow> string \<Rightarrow> world \<Rightarrow> (string \<times> error option) \<times> world" where
  "run_jsonnet ev outputFile qPath w =
     (let w1 = traced (ExecCall ''jsonnet'' [''-o'', outputFile, qPath]) w;
          p = locate w1 outputFile
      in case jsonnet ev (files w) (cwd w) qPath of
           (out, None) \<Rightarrow> ((out, Some (ExecError ''jsonnet'')), w1)
         | (out, Some rendered) \<Rightarrow>
             (if outputFile = [] \<or> p = [] \<or> node_of (files w1) (butlast p) \<noteq> Some Directory
                 \<or> node_of (files w1) p = Some Directory
              then ((out, Some (ExecError ''jsonnet'')), w1)
              else ((out, None), w1\<lparr>files := (files w1)(p \<mapsto> Regular rendered)\<rparr>)))"

section \<open>The Reference Classifier\<close>

text \<open>
  \<^verbatim>\<open>func isLocalFile(path string) bool {
      parse, err := url.Parse(path)
      if err != nil { return false }
      return parse.Scheme == "" || parse.Scheme == "file" }\<close>
\<close>

definition isLocalFile :: "env \<Rightarrow> string \<Rightarrow> bool" where
  "isLocalFile ev path =
     (case url_Parse ev path of
        None \<Rightarrow> False
      | Some scheme \<Rightarrow> scheme = [] \<or> scheme = ''file'')"


text \<open>
  \<^verbatim>\<open>func isJsonnetFile(path string) bool {
      return strings.LastIndex(path, ".jsonnet") == len(path)-8 }\<close>
\<close>

definition isJsonnetFile :: "string \<Rightarrow> bool" where
  "isJsonnetFile path = (LastIndex path ''.jsonnet'' = int (length path) - 8)"

section \<open>The Replicator\<close>

text \<open>
  \<^verbatim>\<open>func (j *Jsonnetizer) QualifyOutput(root, path string) string {
      return filepath.Join(j.Output, root, path) }\<close>
\<close>

definition QualifyOutput :: "Jsonnetizer \<Rightarrow> string \<Rightarrow> string \<Rightarrow> string" where
  "QualifyOutput j root path = Join [Output j, root, path]"

text \<open>
  \<^verbatim>\<open>copyFile(src, dest)\<close>: \<^verbatim>\<open>os.MkdirAll(filepath.Dir(dest))\<close>, \<^verbatim>\<open>os.Open(src)\<close>,
  \<^verbatim>\<open>os.Create(dest)\<close>, \<^verbatim>\<open>io.Copy(create, open)\<close>, each error returned at once.
\<close>

definition copyFile :: "string \<Rightarrow> string \<Rightarrow> world \<Rightarrow> error option \<times> world" where
  "copyFile src dest w =
     (case os_MkdirAll (Dir dest) w of
        (Some err, w1) \<Rightarrow> (Some err, w1)
      | (None, w1) \<Rightarrow>
          (case os_Open src w1 of
             (Inl err, w2) \<Rightarrow> (Some err, w2)
           | (Inr opened, w2) \<Rightarrow>
               (case os_Create dest w2 of
                  (Inl err, w3) \<Rightarrow> (Some err, w3)
                | (Inr created, w3) \<Rightarrow>
                    (case io_Copy created opened w3 of
                       (Some err, w4) \<Rightarrow> (Some err, w4)
                     | (None, w4) \<Rightarrow> (None, w4)))))"

text \<open>
  \<^verbatim>\<open>processFileRef(j, root, path)\<close>, its three branches in the source's order: not a
  local file (left alone), a jsonnet file given by a relative path (rendered to
  \<^verbatim>\<open>QualifyOutput(root, path) + ".yml"\<close>, the reference becoming \<^verbatim>\<open>path + ".yml"\<close>), and
  anything else (copied, the reference unchanged).
\<close>

definition processFileRef ::
  "env \<Rightarrow> Jsonnetizer \<Rightarrow> string \<Rightarrow> string \<Rightarrow> world \<Rightarrow> (error + string) \<times> world" where
  "processFileRef ev j root path w =
     (let qPath = Join [root, path]
      in if \<not> isLocalFile ev qPath then
           (Inr path, log_Printf (qPath @ '' is not a local file; leaving it alone'') w)
         else if isJsonnetFile qPath \<and> \<not> IsAbs path then
           (let w1 = log_Printf (''Running jsonnet on '' @ qPath) w;
                outputFile = QualifyOutput j root path @ ''.yml''
            in case os_MkdirAll (Dir outputFile) w1 of
                 (Some err, w2) \<Rightarrow> (Inl err, w2)
               | (None, w2) \<Rightarrow>
                   (let updatedPath = path @ ''.yml''
                    in case run_jsonnet ev outputFile qPath w2 of
                         ((stdoutStderr, err), w3) \<Rightarrow>
                           (let w4 = (if length stdoutStderr > 0
                                      then log_Printf stdoutStderr w3 else w3)
                            in case err of
                                 Some e \<Rightarrow> (Inl e, w4)
                               | None \<Rightarrow> (Inr updatedPath, w4))))
         else
           (case copyFile qPath (QualifyOutput j root path) w of
              (Some err, w1) \<Rightarrow> (Inl err, w1)
            | (None, w1) \<Rightarrow> (Inr path, w1)))"

text \<open>\<^verbatim>\<open>processPlugin\<close> is \<^verbatim>\<open>processFileRef\<close>.\<close>

definition processPlugin ::
  "env \<Rightarrow> Jsonnetizer \<Rightarrow> string \<Rightarrow> string \<Rightarrow> world \<Rightarrow> (error + string) \<times> world" where
  "processPlugin ev j root path w = processFileRef ev j root path w"

section \<open>The Manifest Resolver\<close>

text \<open>
  \<^verbatim>\<open>findKustFile(root)\<close>: \<^verbatim>\<open>os.Stat\<close> of \<^verbatim>\<open>kustomization.yml\<close>, and only when that
  fails of \<^verbatim>\<open>kustomization.yaml\<close>; the one found must be a regular file.
\<close>

definition findKustFile :: "string \<Rightarrow> world \<Rightarrow> (error + string) \<times> world" where
  "findKustFile root w =
     (let path = Join [root, ''kustomization.yml'']
      in case os_Stat path w of
           (Inr si, w1) \<Rightarrow>
             (if \<not> IsRegular si then (Inl (NotAFile path), w1) else (Inr path, w1))
         | (Inl _, w1) \<Rightarrow>
             (let path = Join [root, ''kustomization.yaml'']
              in case os_Stat path w1 of
                   (Inl _, w2) \<Rightarrow> (Inl (NoKustFile root), w2)
                 | (Inr si, w2) \<Rightarrow>
                     (if \<not> IsRegular si then (Inl (NotAFile path), w2)
                      else (Inr path, w2))))"

text \<open>
  \<^verbatim>\<open>processTypes\<close>, \<^verbatim>\<open>processResource\<close> and \<^verbatim>\<open>processKustomization\<close> call each other:
  a resource that is a directory is resolved by \<^verbatim>\<open>processKustomization\<close> again. A
  manifest that lists \<^verbatim>\<open>.\<close> among its resources makes the Go program recurse without end,
  so the model carries fuel: the number of nested \<^verbatim>\<open>processKustomization\<close> calls allowed.
  \<open>None\<close> is "no result within the fuel"; \<open>Some\<close> holds what the Go function returns and
  the world it leaves.

  \<open>processTypes_loop\<close> is the \<^verbatim>\<open>for _, path := range paths\<close> of \<^verbatim>\<open>processTypes\<close>, with
  \<open>finalResources\<close> as built so far and the paths still to visit.
\<close>

function (sequential) processTypes_loop ::
    "nat \<Rightarrow> env \<Rightarrow> Jsonnetizer \<Rightarrow> string \<Rightarrow> KustomizeType \<Rightarrow> string list \<Rightarrow> string list
       \<Rightarrow> world \<Rightarrow> ((error + string list) \<times> world) option"
  and processResource ::
    "nat \<Rightarrow> env \<Rightarrow> Jsonnetizer \<Rightarrow> string \<Rightarrow> string \<Rightarrow> world
       \<Rightarrow> ((error + string) \<times> world) option"
  and processKustomization ::
    "nat \<Rightarrow> env \<Rightarrow> Jsonnetizer \<Rightarrow> string \<Rightarrow> string \<Rightarrow> world
       \<Rightarrow> (error option \<times> world) option"
where
  "processTypes_loop n ev j root kustType finalResources [] w = Some (Inr finalResources, w)"
| "processTypes_loop n ev j root kustType finalResources (path # paths) w =
     (if path = [] then Some (Inl (EmptyPath root), w)
      else
        (let w1 = log_Printf (''Processing '' @ kustTypeMap kustType @ '': '' @ path) w
         in case (case kustType of
                    ResourceType \<Rightarrow> processResource n ev j root path w1
                  | PluginType \<Rightarrow> Some (processPlugin ev j root path w1)) of
              None \<Rightarrow> None
            | Some (Inl err, w2) \<Rightarrow> Some (Inl err, w2)
            | Some (Inr updatedPath, w2) \<Rightarrow>
                processTypes_loop n ev j root kustType (finalResources @ [updatedPath]) paths w2))"
| "processResource n ev j root path w =
     (case os_Lstat (Join [root, path]) w of
        (Inl err, w1) \<Rightarrow> Some (Inl err, w1)
      | (Inr si, w1) \<Rightarrow>
          (if IsDir si then
             (case processKustomization n ev j root path w1 of
                None \<Rightarrow> None
              | Some (Some err, w2) \<Rightarrow> Some (Inl err, w2)
              | Some (None, w2) \<Rightarrow> Some (Inr path, w2))
           else
             (case processFileRef ev j root path w1 of
                (Inl err, w2) \<Rightarrow> Some (Inl err, w2)
              | (Inr updatedPath, w2) \<Rightarrow> Some (Inr updatedPath, w2))))"
| "processKustomization 0 ev j oldRoot resource w = None"
| "processKustomization (Suc n) ev j oldRoot resource w =
     (let root = Join [oldRoot, resource]
      in case findKustFile root w of
           (Inl err, w1) \<Rightarrow> Some (Some err, w1)
         | (Inr kust, w1) \<Rightarrow>
         (case ioutil_ReadFile kust w1 of
            (Inl err, w2) \<Rightarrow> Some (Some err, w2)
          | (Inr bytes, w2) \<Rightarrow>
         (case yaml_Unmarshal ev bytes of
            None \<Rightarrow> Some (Some YamlError, w2)
          | Some kustomization \<Rightarrow>
         (case processTypes_loop n ev j root ResourceType [] (Resources kustomization) w2 of
            None \<Rightarrow> None
          | Some (Inl err, w3) \<Rightarrow> Some (Some err, w3)
          | Some (Inr resources, w3) \<Rightarrow>
         (case processTypes_loop n ev j root PluginType [] (Generators kustomization) w3 of
            None \<Rightarrow> None
          | Some (Inl err, w4) \<Rightarrow> Some (Some err, w4)
          | Some (Inr generators, w4) \<Rightarrow>
         (case processTypes_loop n ev j root PluginType [] (Transformers kustomization) w4 of
            None \<Rightarrow> None
          | Some (Inl err, w5) \<Rightarrow> Some (Some err, w5)
          | Some (Inr transformers, w5) \<Rightarrow>
         (let kustomization' = kustomization
                \<lparr>Resources := resources, Generators := generators,
                 Transformers := transformers\<rparr>;
              output = QualifyOutput j kust []
          in case os_Create output w5 of
               (Inl err, w6) \<Rightarrow> Some (Some err, w6)
             | (Inr f, w6) \<Rightarrow>
            (case yaml_Marshal ev kustomization' of
               None \<Rightarrow> Some (Some YamlError, w6)
             | Some bytes' \<Rightarrow>
            (case file_Write f bytes' w6 of
               (Some err, w7) \<Rightarrow> Some (Some err, w7)
             | (None, w7) \<Rightarrow> Some (None, w7))))))))))"
  by pat_completeness auto

text \<open>
  Termination: the fuel never grows and drops at each \<open>processKustomization\<close>; between two
  drops the calls go from the loop to \<open>processResource\<close> to \<open>processKustomization\<close>, and
  the loop calls itself on a shorter list.
\<close>

termination
  by (relation "inv_image (less_than <*lex*> less_than <*lex*> less_than)
        (\<lambda>x. case x of
           Inl (n, ev, j, root, kustType, finalResources, paths, w) \<Rightarrow>
             (n, 2::nat, length paths)
         | Inr (Inl (n, ev, j, root, path, w)) \<Rightarrow> (n, 1, 0)
         | Inr (Inr (n, ev, j, oldRoot, resource, w)) \<Rightarrow> (n, 0, 0))") auto

text \<open>\<^verbatim>\<open>processTypes\<close> starts the loop with \<^verbatim>\<open>var finalResources []string\<close>.\<close>

definition processTypes ::
  "nat \<Rightarrow> env \<Rightarrow> Jsonnetizer \<Rightarrow> string \<Rightarrow> KustomizeType \<Rightarrow> string list \<Rightarrow> world
     \<Rightarrow> ((error + string list) \<times> world) option" where
  "processTypes n ev j root kustType paths w =
     processTypes_loop n ev j root kustType [] paths w"

section \<open>The Tree Driver\<close>

text \<open>
  \<^verbatim>\<open>runKustomize(root)\<close>: the build tool's standard output goes to the process's own, its
  standard error is logged when not empty, and a failure to start or a non-zero exit is
  the error. (Creating and reading the pipe are taken to succeed.)
\<close>

definition runKustomize :: "env \<Rightarrow> string \<Rightarrow> world \<Rightarrow> error option \<times> world" where
  "runKustomize ev root w =
     (let w1 = traced (ExecCall ''kustomize'' [''build'', ''--enable_alpha_plugins'', root]) w
      in case kustomize ev (files w) (cwd w) root of
           None \<Rightarrow> (Some (ExecError ''kustomize''), w1)
         | Some (out, stderrOut, ok) \<Rightarrow>
             (let w2 = w1\<lparr>stdout := stdout w1 @ out\<rparr>;
                  w3 = (if length stderrOut > 0 then log_Printf stderrOut w2 else w2)
              in (if ok then None else Some (ExecError ''kustomize''), w3)))"

text \<open>
  \<^verbatim>\<open>main\<close>, from the parsed command line on: \<open>output\<close> is the value of the
  \<^verbatim>\<open>-output\<close> flag and \<open>args\<close> are \<^verbatim>\<open>flag.Args()\<close>. \<^verbatim>\<open>os.Getwd\<close> gives the working
  directory. \<^verbatim>\<open>log.Fatalln\<close> ends the process: the result \<open>Some e\<close> is the error it dies
  with, \<open>None\<close> is a normal return.
\<close>

definition main ::
  "nat \<Rightarrow> env \<Rightarrow> string \<Rightarrow> string list \<Rightarrow> world \<Rightarrow> (error option \<times> world) option" where
  "main n ev output args w =
     (let output = (if output = [] then CHR ''/'' # join_sep (cwd w) else output)
      in if length args = 0 then Some (Some NotEnoughArgs, w)
         else
           (let kustRoot = args ! 0
            in case os_Stat kustRoot w of
                 (Inl err, w1) \<Rightarrow> Some (Some err, w1)
               | (Inr si, w1) \<Rightarrow>
                   (if \<not> IsDir si
                       \<and> (Name si \<noteq> ''kustomization.yml'' \<or> Name si \<noteq> ''kustomization.yaml'')
                    then Some (Some BadArgument, w1)
                    else
                      (let kustRoot = (if \<not> IsDir si then Dir kustRoot else kustRoot);
                           w2 = log_Printf (''Processing kustomization: '' @ kustRoot) w1;
                           j = \<lparr>Base = kustRoot, Output = output\<rparr>
                       in case processKustomization n ev j kustRoot [] w2 of
                            None \<Rightarrow> None
                          | Some (Some err, w3) \<Rightarrow> Some (Some err, w3)
                          | Some (None, w3) \<Rightarrow>
                              (case runKustomize ev (QualifyOutput j kustRoot []) w3 of
                                 (Some err, w4) \<Rightarrow> Some (Some err, w4)
                               | (None, w4) \<Rightarrow> Some (None, w4))))))"

section \<open>Notions for stating the properties\<close>

text \<open>
  An output reference is the rewriting of an input reference when it is the input itself
  or the input with the rendering suffix \<^verbatim>\<open>.yml\<close> appended.
\<close>

definition rewritten :: "string \<Rightarrow> string \<Rightarrow> bool" where
  "rewritten path updatedPath = (updatedPath = path \<or> updatedPath = path @ ''.yml'')"

text \<open>A path names a regular file of the world.\<close>

definition regular_at :: "world \<Rightarrow> string \<Rightarrow> bool" where
  "regular_at w name = (case node_at w name of Some (Regular _) \<Rightarrow> True | _ \<Rightarrow> False)"

text \<open>The directory that holds the file a path names: the parent of its absolute path.\<close>

definition holder :: "world \<Rightarrow> string \<Rightarrow> string list" where
  "holder w name = butlast (locate w name)"

text \<open>
  A later world extends an earlier one when the working directory is the same, every
  directory is still a directory and every regular file is still a regular file (its
  bytes may have changed). Nothing in \<^verbatim>\<open>main.go\<close> removes or renames a node.
\<close>

definition extends :: "world \<Rightarrow> world \<Rightarrow> bool" where
  "extends w w' =
     (cwd w' = cwd w
      \<and> (\<forall>p. files w p = Some Directory \<longrightarrow> files w' p = Some Directory)
      \<and> (\<forall>p b. files w p = Some (Regular b) \<longrightarrow> (\<exists>b'. files w' p = Some (Regular b'))))"

section \<open>A sample tree, for evaluating the model\<close>

text \<open>
  The part of \<^verbatim>\<open>net/url.Parse\<close> that decides the scheme, after Go's \<^verbatim>\<open>getScheme\<close>: letters
  continue a scheme; a digit, \<^verbatim>\<open>+\<close>, \<^verbatim>\<open>-\<close> or \<^verbatim>\<open>.\<close> continues one but cannot start it; a colon
  ends it (a colon at the start is an error); any other byte means there is no scheme.
\<close>

definition is_letter :: "char \<Rightarrow> bool" where
  "is_letter c =
     (let n = (of_char c :: nat) in (97 \<le> n \<and> n \<le> 122) \<or> (65 \<le> n \<and> n \<le> 90))"

definition is_scheme_sign :: "char \<Rightarrow> bool" where
  "is_scheme_sign c =
     (let n = (of_char c :: nat)
      in (48 \<le> n \<and> n \<le> 57) \<or> c = CHR ''+'' \<or> c = CHR ''-'' \<or> c = CHR ''.'')"

fun getScheme_loop :: "string \<Rightarrow> string \<Rightarrow> string \<Rightarrow> (string \<times> string) option" where
  "getScheme_loop rawURL seen [] = Some ([], rawURL)"
| "getScheme_loop rawURL seen (c # cs) =
     (if is_letter c then getScheme_loop rawURL (seen @ [c]) cs
      else if is_scheme_sign c then
        (if seen = [] then Some ([], rawURL) else getScheme_loop rawURL (seen @ [c]) cs)
      else if c = CHR '':'' then
        (if seen = [] then None else Some (seen, cs))
      else Some ([], rawURL))"

definition getScheme :: "string \<Rightarrow> (string \<times> string) option" where
  "getScheme rawURL = getScheme_loop rawURL [] rawURL"

definition ToLower :: "string \<Rightarrow> string" where
  "ToLower s =
     map (\<lambda>c. let n = (of_char c :: nat)
               in if 65 \<le> n \<and> n \<le> 90 then char_of (n + 32) else c) s"

text \<open>
  A sample \<open>url_Parse\<close>: the fragment and the query are cut off, a control byte is an
  error, \<^verbatim>\<open>getScheme\<close> splits the scheme off, and a relative reference whose first segment
  holds a colon is an error. What \<^verbatim>\<open>url.Parse\<close> checks after that (authority, escapes)
  is left out; the sample is used only on strings that pass it.
\<close>

definition sample_url_Parse :: "string \<Rightarrow> string option" where
  "sample_url_Parse rawURL =
     (let u = takeWhile (\<lambda>c. c \<noteq> CHR ''#'') rawURL
      in if list_ex (\<lambda>c. (of_char c :: nat) < 32 \<or> (of_char c :: nat) = 127) u then None
         else if u = ''*'' then Some []
         else
           (case getScheme u of
              None \<Rightarrow> None
            | Some (scheme, rest) \<Rightarrow>
                (let rest = takeWhile (\<lambda>c. c \<noteq> CHR ''?'') rest
                 in if \<not> prefix ''/'' rest \<and> scheme = []
                       \<and> CHR '':'' \<in> set (takeWhile (\<lambda>c. c \<noteq> CHR ''/'') rest)
                    then None
                    else Some (ToLower scheme))))"

text \<open>
  Sample manifests, named by their bytes, and a sample serialisation that lists the three
  reference lists.
\<close>

definition sample_Unmarshal :: "string \<Rightarrow> Kustomization option" where
  "sample_Unmarshal bytes =
     (if bytes = ''root manifest'' then
        Some \<lparr>Resources = [''base.yml'', ''config.jsonnet'', ''overlay''],
              Generators = [], Transformers = [], Other = ''namePrefix: x-''\<rparr>
      else if bytes = ''overlay manifest'' then
        Some \<lparr>Resources = [''patch.yml''], Generators = [], Transformers = [], Other = []\<rparr>
      else if bytes = ''empty manifest'' then
        Some \<lparr>Resources = [], Generators = [], Transformers = [], Other = []\<rparr>
      else None)"

definition sample_Marshal :: "Kustomization \<Rightarrow> string option" where
  "sample_Marshal k =
     Some (''resources: '' @ join_sep (Resources k) @ ''; generators: ''
           @ join_sep (Generators k) @ ''; transformers: '' @ join_sep (Transformers k)
           @ ''; '' @ Other k)"

text \<open>A sample renderer: it reads the source and marks it as rendered.\<close>

definition sample_jsonnet :: "fsys \<Rightarrow> string list \<Rightarrow> string \<Rightarrow> string \<times> string option" where
  "sample_jsonnet fs dir src =
     (case node_of fs (clean_elems True [] ((if IsAbs src then [] else dir) @ split_sep src)) of
        Some (Regular bytes) \<Rightarrow> ([], Some (''# rendered; '' @ bytes))
      | _ \<Rightarrow> (''cannot read the source'', None))"

definition sample_env :: env where
  "sample_env =
     \<lparr>url_Parse = sample_url_Parse,
      yaml_Unmarshal = sample_Unmarshal,
      yaml_Marshal = sample_Marshal,
      jsonnet = sample_jsonnet,
      kustomize = (\<lambda>fs dir root. Some (''built'', [], True))\<rparr>"

text \<open>
  The working directory is \<^verbatim>\<open>/w\<close>. \<^verbatim>\<open>/w/app\<close> holds a manifest, a literal file, a
  template, a file of notes and a nested manifest directory; \<^verbatim>\<open>/w/bare\<close> holds a
  manifest with three empty lists; \<^verbatim>\<open>/w/ns.yaml\<close> is a literal file whose name is seven
  bytes long; \<^verbatim>\<open>/out\<close> is an empty output root.
\<close>

definition sample_files :: fsys where
  "sample_files =
     [[''w''] \<mapsto> Directory,
      [''w'', ''app''] \<mapsto> Directory,
      [''w'', ''app'', ''kustomization.yaml''] \<mapsto> Regular ''root manifest'',
      [''w'', ''app'', ''base.yml''] \<mapsto> Regular ''kind: ConfigMap'',
      [''w'', ''app'', ''config.jsonnet''] \<mapsto> Regular ''{ kind: 1 }'',
      [''w'', ''app'', ''notes.txt''] \<mapsto> Regular ''to do'',
      [''w'', ''app'', ''overlay''] \<mapsto> Directory,
      [''w'', ''app'', ''overlay'', ''kustomization.yml''] \<mapsto> Regular ''overlay manifest'',
      [''w'', ''app'', ''overlay'', ''patch.yml''] \<mapsto> Regular ''kind: Patch'',
      [''w'', ''bare''] \<mapsto> Directory,
      [''w'', ''bare'', ''kustomization.yml''] \<mapsto> Regular ''empty manifest'',
      [''w'', ''ns.yaml''] \<mapsto> Regular ''{ kind: Namespace }'',
      [''out''] \<mapsto> Directory]"

definition sample_world :: world where
  "sample_world =
     \<lparr>cwd = [''w''], files = sample_files, trace = [], logged = [], stdout = []\<rparr>"

definition sample_j :: Jsonnetizer where
  "sample_j = \<lparr>Base = ''app'', Output = ''/out''\<rparr>"

section \<open>Facts about strings and paths\<close>

text \<open>
  \<open>LastIndex\<close> finds a suffix at its own position, and any index it returns is a
  position of the substring. So \<open>isJsonnetFile\<close> holds exactly of the paths that end in
  \<^verbatim>\<open>.jsonnet\<close> and of every path of seven bytes: for those \<^verbatim>\<open>LastIndex\<close> returns \<open>-1\<close>,
  which is \<^verbatim>\<open>len(path)-8\<close>.
\<close>

lemma LastIndex_suffix:
  assumes "suffix sub s"
  shows "LastIndex s sub = int (length s) - int (length sub)"
proof -
  from assms obtain x where s: "s = x @ sub" by (auto simp: suffix_def)
  have len: "length s - length sub = length x" using s by simp
  have "[0 ..< Suc (length x)] = [0 ..< length x] @ [length x]" by simp
  then have "rev [0 ..< Suc (length x)] = length x # rev [0 ..< length x]" by simp
  then show ?thesis
    using s by (simp add: LastIndex_def len del: upt_Suc)
qed

lemma LastIndex_range:
  "LastIndex s sub = - 1 \<or>
   (0 \<le> LastIndex s sub \<and> take (length sub) (drop (nat (LastIndex s sub)) s) = sub
     \<and> nat (LastIndex s sub) + length sub \<le> length s)"
proof (cases "length s < length sub")
  case True then show ?thesis by (simp add: LastIndex_def)
next
  case False
  let ?P = "\<lambda>i. take (length sub) (drop i s) = sub"
  let ?xs = "filter ?P (rev [0 ..< Suc (length s - length sub)])"
  show ?thesis
  proof (cases ?xs)
    case Nil then show ?thesis using False by (simp add: LastIndex_def del: upt_Suc)
  next
    case (Cons i rest)
    then have "i \<in> set ?xs" by simp
    then have "i \<in> {x \<in> set (rev [0 ..< Suc (length s - length sub)]). ?P x}"
      by (simp only: set_filter)
    then have "?P i" "i \<le> length s - length sub" by (auto simp del: upt_Suc)
    then show ?thesis using False Cons by (simp add: LastIndex_def del: upt_Suc)
  qed
qed

lemma isJsonnetFile_iff:
  "isJsonnetFile path \<longleftrightarrow> suffix ''.jsonnet'' path \<or> length path = 7"
proof
  assume a: "isJsonnetFile path"
  then have eq: "LastIndex path ''.jsonnet'' = int (length path) - 8"
    by (simp add: isJsonnetFile_def)
  from LastIndex_range [of path "''.jsonnet''"]
  show "suffix ''.jsonnet'' path \<or> length path = 7"
  proof
    assume "LastIndex path ''.jsonnet'' = - 1"
    with eq show ?thesis by simp
  next
    assume b: "0 \<le> LastIndex path ''.jsonnet'' \<and>
      take (length ''.jsonnet'') (drop (nat (LastIndex path ''.jsonnet'')) path) = ''.jsonnet''
      \<and> nat (LastIndex path ''.jsonnet'') + length ''.jsonnet'' \<le> length path"
    with eq have n: "nat (LastIndex path ''.jsonnet'') = length path - 8" "8 \<le> length path"
      by auto
    from b n have "take 8 (drop (length path - 8) path) = ''.jsonnet''" by simp
    moreover have "take 8 (drop (length path - 8) path) = drop (length path - 8) path"
      using n by simp
    ultimately have "drop (length path - 8) path = ''.jsonnet''" by simp
    then have "suffix ''.jsonnet'' path" by (metis suffix_drop)
    then show ?thesis ..
  qed
next
  assume "suffix ''.jsonnet'' path \<or> length path = 7"
  then show "isJsonnetFile path"
  proof
    assume "suffix ''.jsonnet'' path"
    from LastIndex_suffix [OF this] show ?thesis by (simp add: isJsonnetFile_def)
  next
    assume "length path = 7"
    then show ?thesis by (simp add: isJsonnetFile_def LastIndex_def)
  qed
qed

text \<open>
  A suffix without a separator, three bytes or longer, is part of the last element of a
  path and is no \<^verbatim>\<open>.\<close> or \<^verbatim>\<open>..\<close>: \<open>Clean\<close> and \<open>Join\<close> keep it. So a reference that
  ends in \<^verbatim>\<open>.jsonnet\<close> still does after it is joined to its root.
\<close>

lemma split_sep_not_Nil: "split_sep s \<noteq> []"
  by (induction s) (auto split: list.splits)

lemma split_sep_no_sep: "CHR ''/'' \<notin> set y \<Longrightarrow> split_sep y = [y]"
  by (induction y) auto

lemma split_sep_append_no_sep:
  "CHR ''/'' \<notin> set y \<Longrightarrow>
   split_sep (x @ y) = butlast (split_sep x) @ [last (split_sep x) @ y]"
proof (induction x)
  case Nil
  then show ?case by (simp add: split_sep_no_sep)
next
  case (Cons c cs)
  obtain s1 rest where S: "split_sep cs = s1 # rest"
    using split_sep_not_Nil [of cs] by (cases "split_sep cs") auto
  show ?case
  proof (cases "c = CHR ''/''")
    case True
    then show ?thesis using Cons S by simp
  next
    case False
    then show ?thesis using Cons S by (cases rest) auto
  qed
qed

lemma clean_elems_append:
  "clean_elems r out (xs @ ys) = clean_elems r (clean_elems r out xs) ys"
  by (induction xs arbitrary: out) auto

lemma clean_elems_snoc_name:
  assumes "e \<noteq> []" "e \<noteq> ''.''" "e \<noteq> ''..''"
  shows "clean_elems r out (xs @ [e]) = clean_elems r out xs @ [e]"
  using assms by (simp add: clean_elems_append)

lemma suffix_join_sep_snoc: "suffix e (join_sep (zs @ [e]))"
proof (induction zs rule: join_sep.induct)
  case 1 then show ?case by simp
next
  case (2 x)
  then show ?case by (simp add: suffix_def)
next
  case (3 x y ys)
  then obtain u where "join_sep (y # ys @ [e]) = u @ e" by (auto simp: suffix_def)
  then show ?case by (simp add: suffix_def)
qed

lemma Clean_keeps_suffix:
  assumes t: "suffix t s" and nosep: "CHR ''/'' \<notin> set t" and len: "3 \<le> length t"
  shows "suffix t (Clean s)"
proof -
  from t obtain x where s: "s = x @ t" by (auto simp: suffix_def)
  define e where "e = last (split_sep x) @ t"
  have "3 \<le> length e" using len by (simp add: e_def)
  then have e: "e \<noteq> []" "e \<noteq> ''.''" "e \<noteq> ''..''"
    by auto
  have te: "suffix t e" by (simp add: e_def suffix_def)
  have sp: "split_sep s = butlast (split_sep x) @ [e]"
    unfolding s e_def by (rule split_sep_append_no_sep [OF nosep])
  have ce: "\<And>r. clean_elems r [] (split_sep s) = clean_elems r [] (butlast (split_sep x)) @ [e]"
    unfolding sp by (rule clean_elems_snoc_name [OF e])
  have j: "\<And>r. suffix e (join_sep (clean_elems r [] (split_sep s)))"
    unfolding ce by (rule suffix_join_sep_snoc)
  then have jt: "\<And>r. suffix t (join_sep (clean_elems r [] (split_sep s)))"
    using te suffix_order.trans by blast
  have ne: "s \<noteq> []" using s len by auto
  have jne: "join_sep (clean_elems r [] (split_sep s)) \<noteq> []" for r
  proof -
    from j [of r] obtain zs where "join_sep (clean_elems r [] (split_sep s)) = zs @ e"
      by (auto simp: suffix_def)
    then show ?thesis using e(1) by simp
  qed
  show ?thesis
    using jt ne jne by (auto simp: Clean_def Let_def suffix_Cons)
qed

lemma Join_keeps_suffix:
  assumes "suffix t path" "CHR ''/'' \<notin> set t" "3 \<le> length t"
  shows "suffix t (Join [root, path])"
proof -
  have ne: "path \<noteq> []" using assms by (auto simp: suffix_def)
  have 1: "suffix t (root @ CHR ''/'' # path)"
    using assms(1) by (auto simp: suffix_def)
  show ?thesis
    using ne assms 1 by (cases "root = []") (auto simp: Join_def intro!: Clean_keeps_suffix)
qed

lemma Join_jsonnet: "suffix ''.jsonnet'' path \<Longrightarrow> isJsonnetFile (Join [root, path])"
  by (rule iffD2 [OF isJsonnetFile_iff], rule disjI1, rule Join_keeps_suffix) simp_all

section \<open>Facts about the world\<close>

text \<open>Recording a call or a log line changes no node.\<close>

lemma node_at_traced [simp]: "node_at (traced a w) name = node_at w name"
  by (simp add: node_at_def traced_def locate_def)

lemma node_at_log_Printf [simp]: "node_at (log_Printf msg w) name = node_at w name"
  by (simp add: node_at_def log_Printf_def locate_def)

section \<open>Locating the manifest\<close>

text \<open>
  Claim C9. \<open>findKustFile\<close> tries \<^verbatim>\<open>kustomization.yml\<close> first and \<^verbatim>\<open>kustomization.yaml\<close>
  only when the first does not exist, and uses the first of the two that exists. When the
  first exists as a regular file it is the result and the second is not looked at (one
  \<^verbatim>\<open>Stat\<close> is recorded); when only the second exists as a regular file it is the result;
  when neither exists the result is the error \<open>NoKustFile root\<close>. The name that is found
  is final: when it is a directory the result is \<open>NotAFile\<close>, with no fallback.
\<close>

theorem findKustFile_priority:
  "(let yml = Join [root, ''kustomization.yml''];
        yaml = Join [root, ''kustomization.yaml''];
        w1 = traced (StatCall yml) w;
        w2 = traced (StatCall yaml) w1
    in (\<forall>b. node_at w yml = Some (Regular b) \<longrightarrow> findKustFile root w = (Inr yml, w1))
     \<and> (node_at w yml = Some Directory \<longrightarrow> findKustFile root w = (Inl (NotAFile yml), w1))
     \<and> (\<forall>b. node_at w yml = None \<and> node_at w yaml = Some (Regular b) \<longrightarrow>
            findKustFile root w = (Inr yaml, w2))
     \<and> (node_at w yml = None \<and> node_at w yaml = Some Directory \<longrightarrow>
            findKustFile root w = (Inl (NotAFile yaml), w2))
     \<and> (node_at w yml = None \<and> node_at w yaml = None \<longrightarrow>
            findKustFile root w = (Inl (NoKustFile root), w2)))"
  by (auto simp: findKustFile_def os_Stat_def fileinfo_def Let_def)

text \<open>
  In the sample tree \<^verbatim>\<open>bare\<close> holds \<^verbatim>\<open>kustomization.yml\<close>, \<^verbatim>\<open>app\<close> holds only
  \<^verbatim>\<open>kustomization.yaml\<close>, and \<^verbatim>\<open>out\<close> (relative to \<^verbatim>\<open>/w\<close>) does not exist.
\<close>

theorem findKustFile_priority_witness:
  "fst (findKustFile ''bare'' sample_world) = Inr ''bare/kustomization.yml''
   \<and> fst (findKustFile ''app'' sample_world) = Inr ''app/kustomization.yaml''
   \<and> fst (findKustFile ''out'' sample_world) = Inl (NoKustFile ''out'')"
proof -
  have J: "Join [''bare'', ''kustomization.yml''] = ''bare/kustomization.yml''"
    "Join [''app'', ''kustomization.yml''] = ''app/kustomization.yml''"
    "Join [''app'', ''kustomization.yaml''] = ''app/kustomization.yaml''"
    "Join [''out'', ''kustomization.yml''] = ''out/kustomization.yml''"
    "Join [''out'', ''kustomization.yaml''] = ''out/kustomization.yaml''"
    by code_simp+
  have N: "node_at sample_world ''bare/kustomization.yml'' = Some (Regular ''empty manifest'')"
    "node_at sample_world ''app/kustomization.yml'' = None"
    "node_at sample_world ''app/kustomization.yaml'' = Some (Regular ''root manifest'')"
    "node_at sample_world ''out/kustomization.yml'' = None"
    "node_at sample_world ''out/kustomization.yaml'' = None"
    by code_simp+
  show ?thesis
    using findKustFile_priority [of "''bare''" sample_world]
      findKustFile_priority [of "''app''" sample_world]
      findKustFile_priority [of "''out''" sample_world]
    by (simp add: Let_def J N)
qed

text \<open>What each call leaves in the record of calls.\<close>

lemma trace_log_Printf [simp]: "trace (log_Printf msg w) = trace w"
  by (simp add: log_Printf_def)

lemma files_log_Printf [simp]: "files (log_Printf msg w) = files w"
  by (simp add: log_Printf_def)

lemma cwd_log_Printf [simp]: "cwd (log_Printf msg w) = cwd w"
  by (simp add: log_Printf_def)

lemma trace_os_MkdirAll:
  "os_MkdirAll name w = (r, w') \<Longrightarrow> trace w' = trace w @ [MkdirAllCall name]"
  by (auto simp: os_MkdirAll_def traced_def Let_def split: if_splits prod.splits)

lemma trace_run_jsonnet:
  "run_jsonnet ev outputFile qPath w = (r, w') \<Longrightarrow>
   trace w' = trace w @ [ExecCall ''jsonnet'' [''-o'', outputFile, qPath]]"
  by (auto simp: run_jsonnet_def traced_def Let_def split: if_splits prod.splits option.splits)

lemma trace_os_Lstat: "os_Lstat name w = (r, w') \<Longrightarrow> trace w' = trace w @ [LstatCall name]"
  by (auto simp: os_Lstat_def traced_def)

lemma processFileRef_jsonnet:
  assumes loc: "isLocalFile ev (Join [root, path])"
    and suf: "suffix ''.jsonnet'' path"
    and rel: "\<not> IsAbs path"
    and ok: "processFileRef ev j root path w = (Inr updatedPath, w')"
  shows "updatedPath = path @ ''.yml'' \<and>
         trace w' = trace w @
           [MkdirAllCall (Dir (QualifyOutput j root path @ ''.yml'')),
            ExecCall ''jsonnet'' [''-o'', QualifyOutput j root path @ ''.yml'', Join [root, path]]]"
proof -
  let ?q = "Join [root, path]"
  let ?o = "QualifyOutput j root path @ ''.yml''"
  let ?w1 = "log_Printf (''Running jsonnet on '' @ ?q) w"
  have js: "isJsonnetFile ?q" by (rule Join_jsonnet [OF suf])
  obtain e w2 where mk: "os_MkdirAll (Dir ?o) ?w1 = (e, w2)" by (cases "os_MkdirAll (Dir ?o) ?w1")
  with ok loc js rel have e: "e = None"
    by (cases e) (simp_all add: processFileRef_def Let_def)
  obtain out err w3 where run: "run_jsonnet ev ?o ?q w2 = ((out, err), w3)"
    by (cases "run_jsonnet ev ?o ?q w2") auto
  from ok loc js rel mk e run have res: "err = None" "updatedPath = path @ ''.yml''"
    "w' = (if 0 < length out then log_Printf out w3 else w3)"
    by (cases err; simp add: processFileRef_def Let_def)+
  have "trace w2 = trace w @ [MkdirAllCall (Dir ?o)]"
    using trace_os_MkdirAll [OF mk] by simp
  moreover have "trace w3 = trace w2 @ [ExecCall ''jsonnet'' [''-o'', ?o, ?q]]"
    by (rule trace_run_jsonnet [OF run])
  moreover have "trace w' = trace w3" using res(3) by simp
  ultimately show ?thesis using res(2) by simp
qed

section \<open>Rendering a template\<close>

text \<open>
  What the source does for a template whose joined path is local. Take a reference that
  ends in \<^verbatim>\<open>.jsonnet\<close> and is given as a relative path, and let \<open>isLocalFile\<close> hold of
  the reference joined to its root (the test \<open>processFileRef\<close> makes; it is not the
  locality of the reference itself, see the last section). Whenever it is resolved with
  success, as a generator or transformer (\<open>processPlugin\<close>) or as a resource that names
  a regular file (\<open>processResource\<close>), the reference returned is the input with
  \<^verbatim>\<open>.yml\<close> appended, and the calls made are exactly: the \<^verbatim>\<open>Lstat\<close> of a resource, one
  \<^verbatim>\<open>MkdirAll\<close> of the destination's directory, and one run of \<^verbatim>\<open>jsonnet\<close> whose source
  is the joined input path and whose destination is
  \<^verbatim>\<open>QualifyOutput(root, path) + ".yml"\<close>.
\<close>

theorem jsonnet_reference_rendered:
  "(\<forall>updatedPath w'.
      isLocalFile ev (Join [root, path]) \<and> suffix ''.jsonnet'' path \<and> \<not> IsAbs path
      \<and> processPlugin ev j root path w = (Inr updatedPath, w') \<longrightarrow>
        updatedPath = path @ ''.yml'' \<and>
        trace w' = trace w @
          [MkdirAllCall (Dir (QualifyOutput j root path @ ''.yml'')),
           ExecCall ''jsonnet''
             [''-o'', QualifyOutput j root path @ ''.yml'', Join [root, path]]])
   \<and> (\<forall>updatedPath w' bytes.
      isLocalFile ev (Join [root, path]) \<and> suffix ''.jsonnet'' path \<and> \<not> IsAbs path
      \<and> node_at w (Join [root, path]) = Some (Regular bytes)
      \<and> processResource n ev j root path w = Some (Inr updatedPath, w') \<longrightarrow>
        updatedPath = path @ ''.yml'' \<and>
        trace w' = trace w @
          [LstatCall (Join [root, path]),
           MkdirAllCall (Dir (QualifyOutput j root path @ ''.yml'')),
           ExecCall ''jsonnet''
             [''-o'', QualifyOutput j root path @ ''.yml'', Join [root, path]]])"
proof (intro conjI allI impI)
  fix updatedPath w'
  assume a: "isLocalFile ev (Join [root, path]) \<and> suffix ''.jsonnet'' path \<and> \<not> IsAbs path
      \<and> processPlugin ev j root path w = (Inr updatedPath, w')"
  then have "processFileRef ev j root path w = (Inr updatedPath, w')"
    by (simp add: processPlugin_def)
  with a show "updatedPath = path @ ''.yml''" 
    and "trace w' = trace w @
          [MkdirAllCall (Dir (QualifyOutput j root path @ ''.yml'')),
           ExecCall ''jsonnet''
             [''-o'', QualifyOutput j root path @ ''.yml'', Join [root, path]]]"
    using processFileRef_jsonnet by blast+
next
  fix updatedPath w' bytes
  assume a: "isLocalFile ev (Join [root, path]) \<and> suffix ''.jsonnet'' path \<and> \<not> IsAbs path
      \<and> node_at w (Join [root, path]) = Some (Regular bytes)
      \<and> processResource n ev j root path w = Some (Inr updatedPath, w')"
  let ?w1 = "traced (LstatCall (Join [root, path])) w"
  from a have ls: "os_Lstat (Join [root, path]) w
      = (Inr (fileinfo (Join [root, path]) (Regular bytes)), ?w1)"
    by (simp add: os_Lstat_def)
  from a have "processResource n ev j root path w = Some (Inr updatedPath, w')" by simp
  then have "processFileRef ev j root path ?w1 = (Inr updatedPath, w')"
    by (simp add: ls fileinfo_def split: prod.splits sum.splits)
  with a have "updatedPath = path @ ''.yml'' \<and>
         trace w' = trace ?w1 @
           [MkdirAllCall (Dir (QualifyOutput j root path @ ''.yml'')),
            ExecCall ''jsonnet'' [''-o'', QualifyOutput j root path @ ''.yml'', Join [root, path]]]"
    using processFileRef_jsonnet by blast
  then show "updatedPath = path @ ''.yml''" 
    and "trace w' = trace w @
          [LstatCall (Join [root, path]),
           MkdirAllCall (Dir (QualifyOutput j root path @ ''.yml'')),
           ExecCall ''jsonnet''
             [''-o'', QualifyOutput j root path @ ''.yml'', Join [root, path]]]"
    by (simp_all add: traced_def)
qed

text \<open>
  In the sample tree the generator \<^verbatim>\<open>config.jsonnet\<close> of \<^verbatim>\<open>app\<close> is rendered to
  \<^verbatim>\<open>/out/app/config.jsonnet.yml\<close>.
\<close>

theorem jsonnet_reference_rendered_witness:
  "isLocalFile sample_env (Join [''app'', ''config.jsonnet''])
   \<and> suffix ''.jsonnet'' ''config.jsonnet'' \<and> \<not> IsAbs ''config.jsonnet''
   \<and> fst (processPlugin sample_env sample_j ''app'' ''config.jsonnet'' sample_world)
       = Inr ''config.jsonnet.yml''
   \<and> trace (snd (processPlugin sample_env sample_j ''app'' ''config.jsonnet'' sample_world))
       = [MkdirAllCall ''/out/app'',
          ExecCall ''jsonnet'' [''-o'', ''/out/app/config.jsonnet.yml'', ''app/config.jsonnet'']]"
proof -
  obtain u w' where pw:
    "processPlugin sample_env sample_j ''app'' ''config.jsonnet'' sample_world = (u, w')"
    by (cases "processPlugin sample_env sample_j ''app'' ''config.jsonnet'' sample_world")
  have h1: "isLocalFile sample_env (Join [''app'', ''config.jsonnet''])" by code_simp
  have h2: "suffix ''.jsonnet'' ''config.jsonnet''" by (simp add: suffix_def)
  have h3: "\<not> IsAbs ''config.jsonnet''" by code_simp
  have "fst (processPlugin sample_env sample_j ''app'' ''config.jsonnet'' sample_world)
       = Inr ''config.jsonnet.yml''" by code_simp
  then have u: "u = Inr ''config.jsonnet.yml''" by (simp add: pw)
  have e: "Join [''app'', ''config.jsonnet''] = ''app/config.jsonnet''"
    "QualifyOutput sample_j ''app'' ''config.jsonnet'' @ ''.yml'' = ''/out/app/config.jsonnet.yml''"
    "Dir ''/out/app/config.jsonnet.yml'' = ''/out/app''"
    "trace sample_world = []"
    by code_simp+
  have "trace w' = trace sample_world @
          [MkdirAllCall (Dir (QualifyOutput sample_j ''app'' ''config.jsonnet'' @ ''.yml'')),
           ExecCall ''jsonnet''
             [''-o'', QualifyOutput sample_j ''app'' ''config.jsonnet'' @ ''.yml'',
              Join [''app'', ''config.jsonnet'']]]"
    using jsonnet_reference_rendered [of sample_env "''app''" "''config.jsonnet''" sample_j
        sample_world 0] h1 h2 h3 pw u
    by blast
  then have "trace w' = [MkdirAllCall ''/out/app'',
          ExecCall ''jsonnet'' [''-o'', ''/out/app/config.jsonnet.yml'', ''app/config.jsonnet'']]"
    by (simp only: e append_Nil)
  then show ?thesis using h1 h2 h3 u by (simp add: pw)
qed

section \<open>The loop over a reference list\<close>

text \<open>
  The loop over a list that is two lists in a row is the loop over the first, and from
  its result (the references built so far and the world) the loop over the second.
\<close>

lemma processTypes_loop_append:
  "processTypes_loop n ev j root kustType acc (xs @ ys) w =
     (case processTypes_loop n ev j root kustType acc xs w of
        None \<Rightarrow> None
      | Some (Inl err, w') \<Rightarrow> Some (Inl err, w')
      | Some (Inr acc', w') \<Rightarrow> processTypes_loop n ev j root kustType acc' ys w')"
proof (induction xs arbitrary: acc w)
  case Nil
  show ?case by simp
next
  case (Cons x xs)
  show ?case
    by (simp add: Cons.IH Let_def split: option.splits prod.splits sum.splits KustomizeType.splits)
qed

text \<open>A reference that \<open>processFileRef\<close> returns is the input or the input with \<^verbatim>\<open>.yml\<close>.\<close>

lemma processFileRef_rewritten:
  "processFileRef ev j root path w = (Inr updatedPath, w') \<Longrightarrow> rewritten path updatedPath"
  by (auto simp: processFileRef_def rewritten_def Let_def
      split: if_splits prod.splits option.splits)

lemma processResource_rewritten:
  "processResource n ev j root path w = Some (Inr updatedPath, w') \<Longrightarrow>
   rewritten path updatedPath"
  by (auto simp: rewritten_def Let_def dest!: processFileRef_rewritten
      split: if_splits prod.splits option.splits sum.splits)

text \<open>
  From here on \<open>processResource\<close> and \<open>processKustomization\<close> are unfolded only where a
  proof asks for it.
\<close>

declare processResource.simps [simp del] processKustomization.simps [simp del]

lemma processTypes_loop_rewritten:
  "processTypes_loop n ev j root kustType acc paths w = Some (Inr out, w') \<Longrightarrow>
   \<exists>rs. out = acc @ rs \<and> list_all2 rewritten paths rs"
proof (induction paths arbitrary: acc w)
  case Nil
  then show ?case by simp
next
  case (Cons path paths)
  from Cons.prems have ne: "path \<noteq> []" by (auto split: if_splits)
  let ?w1 = "log_Printf (''Processing '' @ kustTypeMap kustType @ '': '' @ path) w"
  let ?step = "case kustType of
                 ResourceType \<Rightarrow> processResource n ev j root path ?w1
               | PluginType \<Rightarrow> Some (processPlugin ev j root path ?w1)"
  from Cons.prems ne obtain u w2 where
    step: "?step = Some (Inr u, w2)" and
    rest: "processTypes_loop n ev j root kustType (acc @ [u]) paths w2 = Some (Inr out, w')"
    by (auto simp: Let_def simp del: append.simps split: option.splits prod.splits sum.splits)
  have "rewritten path u"
    using step
    by (cases kustType)
       (auto simp: processPlugin_def dest: processResource_rewritten processFileRef_rewritten)
  moreover from Cons.IH [OF rest] obtain rs where "out = (acc @ [u]) @ rs"
    "list_all2 rewritten paths rs" by blast
  ultimately have "out = acc @ (u # rs) \<and> list_all2 rewritten (path # paths) (u # rs)" by simp
  then show ?case by blast
qed

section \<open>An empty entry in a reference list\<close>




section \<open>A successful resolution, step by step\<close>

text \<open>
  When \<open>processKustomization\<close> returns without error, each of its steps has succeeded:
  the manifest was found, read and parsed, the three lists were resolved, the output file
  was created, the rewritten manifest serialised and written.
\<close>

lemma processKustomization_success:
  assumes "processKustomization (Suc n) ev j oldRoot resource w = Some (None, w')"
  shows "\<exists>kust w1 bytes w2 k rs w3 gs w4 ts w5 f w6 out.
     findKustFile (Join [oldRoot, resource]) w = (Inr kust, w1)
   \<and> ioutil_ReadFile kust w1 = (Inr bytes, w2)
   \<and> yaml_Unmarshal ev bytes = Some k
   \<and> processTypes_loop n ev j (Join [oldRoot, resource]) ResourceType [] (Resources k) w2
        = Some (Inr rs, w3)
   \<and> processTypes_loop n ev j (Join [oldRoot, resource]) PluginType [] (Generators k) w3
        = Some (Inr gs, w4)
   \<and> processTypes_loop n ev j (Join [oldRoot, resource]) PluginType [] (Transformers k) w4
        = Some (Inr ts, w5)
   \<and> os_Create (QualifyOutput j kust []) w5 = (Inr f, w6)
   \<and> yaml_Marshal ev (k\<lparr>Resources := rs, Generators := gs, Transformers := ts\<rparr>) = Some out
   \<and> file_Write f out w6 = (None, w')"
  using assms unfolding processKustomization.simps Let_def
  by (simp split: prod.splits sum.splits option.splits)

text \<open>The node a path names depends on the files and the working directory only.\<close>

lemma node_at_cong: "files w' = files w \<Longrightarrow> cwd w' = cwd w \<Longrightarrow> node_at w' name = node_at w name"
  by (simp add: node_at_def locate_def)

lemma os_Stat_world: "os_Stat name w = (r, w') \<Longrightarrow> files w' = files w \<and> cwd w' = cwd w"
  by (auto simp: os_Stat_def traced_def)

lemma os_Lstat_world: "os_Lstat name w = (r, w') \<Longrightarrow> files w' = files w \<and> cwd w' = cwd w"
  by (auto simp: os_Lstat_def traced_def)

lemma findKustFile_world:
  "findKustFile root w = (r, w') \<Longrightarrow> files w' = files w \<and> cwd w' = cwd w"
  by (auto simp: findKustFile_def Let_def dest!: os_Stat_world
      split: prod.splits sum.splits if_splits)

lemma ioutil_ReadFile_Inr:
  "ioutil_ReadFile name w = (Inr bytes, w') \<Longrightarrow>
   node_at w name = Some (Regular bytes) \<and> files w' = files w \<and> cwd w' = cwd w"
  by (auto simp: ioutil_ReadFile_def traced_def split: option.splits node.splits)

lemma os_Create_Inr:
  "os_Create name w = (Inr f, w') \<Longrightarrow>
   name \<noteq> [] \<and> f \<noteq> [] \<and> f = locate w name \<and> cwd w' = cwd w
   \<and> node_of (files w) (butlast f) = Some Directory
   \<and> files w' = (files w)(f \<mapsto> Regular [])"
  by (auto simp: os_Create_def traced_def Let_def locate_def split: if_splits)

lemma file_Write_None:
  "file_Write f bytes w = (None, w') \<Longrightarrow>
   \<exists>old. node_of (files w) f = Some (Regular old) \<and> cwd w' = cwd w
     \<and> files w' = (files w)(f \<mapsto> Regular (old @ bytes))"
  by (auto simp: file_Write_def traced_def Let_def split: option.splits node.splits)

text \<open>The file just created and written holds the bytes written.\<close>

lemma created_and_written:
  assumes c: "os_Create name w = (Inr f, w1)" and wr: "file_Write f bytes w1 = (None, w2)"
  shows "node_at w2 name = Some (Regular bytes)"
proof -
  from os_Create_Inr [OF c] have f: "name \<noteq> []" "f \<noteq> []" "f = locate w name" "cwd w1 = cwd w"
    "files w1 = (files w)(f \<mapsto> Regular [])" by auto
  from file_Write_None [OF wr] obtain old where o: "node_of (files w1) f = Some (Regular old)"
    "cwd w2 = cwd w1" "files w2 = (files w1)(f \<mapsto> Regular (old @ bytes))" by auto
  from o(1) f have "old = []" by (simp add: node_of_def)
  moreover have "locate w2 name = f" using f o by (simp add: locate_def)
  ultimately show ?thesis using f o by (simp add: node_at_def node_of_def)
qed

section \<open>List length and order\<close>

text \<open>
  Claim C7. When \<open>processKustomization\<close> returns without error, the manifest \<open>k\<close> it
  found, read and parsed has been rewritten with lists \<open>rs\<close>, \<open>gs\<close> and \<open>ts\<close> that have
  exactly as many entries as the resources, generators and transformers of \<open>k\<close>; entry
  by entry and in the same order (\<open>list_all2\<close>), each output reference is the rewriting
  of the one input reference at its position; and the file at
  \<^verbatim>\<open>QualifyOutput(kust, "")\<close> holds the serialisation of \<open>k\<close> with these three lists.
\<close>

theorem rewriting_preserves_lists:
  assumes "processKustomization (Suc n) ev j oldRoot resource w = Some (None, w')"
  shows "\<exists>kust bytes k rs gs ts out.
       fst (findKustFile (Join [oldRoot, resource]) w) = Inr kust
     \<and> node_at w kust = Some (Regular bytes) \<and> yaml_Unmarshal ev bytes = Some k
     \<and> length rs = length (Resources k) \<and> length gs = length (Generators k)
     \<and> length ts = length (Transformers k)
     \<and> list_all2 rewritten (Resources k) rs \<and> list_all2 rewritten (Generators k) gs
     \<and> list_all2 rewritten (Transformers k) ts
     \<and> yaml_Marshal ev (k\<lparr>Resources := rs, Generators := gs, Transformers := ts\<rparr>) = Some out
     \<and> node_at w' (QualifyOutput j kust []) = Some (Regular out)"
proof -
  let ?root = "Join [oldRoot, resource]"
  from processKustomization_success [OF assms]
  obtain kust w1 bytes w2 k rs w3 gs w4 ts w5 f w6 out where
    find: "findKustFile ?root w = (Inr kust, w1)" and
    read: "ioutil_ReadFile kust w1 = (Inr bytes, w2)" and
    parse: "yaml_Unmarshal ev bytes = Some k" and
    r: "processTypes_loop n ev j ?root ResourceType [] (Resources k) w2 = Some (Inr rs, w3)" and
    g: "processTypes_loop n ev j ?root PluginType [] (Generators k) w3 = Some (Inr gs, w4)" and
    t: "processTypes_loop n ev j ?root PluginType [] (Transformers k) w4 = Some (Inr ts, w5)" and
    cr: "os_Create (QualifyOutput j kust []) w5 = (Inr f, w6)" and
    ser: "yaml_Marshal ev (k\<lparr>Resources := rs, Generators := gs, Transformers := ts\<rparr>) = Some out" and
    wr: "file_Write f out w6 = (None, w')"
    by blast
  have "node_at w1 kust = Some (Regular bytes)" using ioutil_ReadFile_Inr [OF read] by simp
  moreover have "node_at w1 kust = node_at w kust"
    using findKustFile_world [OF find] by (intro node_at_cong) simp_all
  ultimately have src: "node_at w kust = Some (Regular bytes)" by simp
  have R: "list_all2 rewritten (Resources k) rs"
    using processTypes_loop_rewritten [OF r] by simp
  have G: "list_all2 rewritten (Generators k) gs"
    using processTypes_loop_rewritten [OF g] by simp
  have T: "list_all2 rewritten (Transformers k) ts"
    using processTypes_loop_rewritten [OF t] by simp
  have len: "length rs = length (Resources k)" "length gs = length (Generators k)"
    "length ts = length (Transformers k)"
    using R G T by (simp_all add: list_all2_lengthD)
  have "node_at w' (QualifyOutput j kust []) = Some (Regular out)"
    by (rule created_and_written [OF cr wr])
  with find src parse len R G T ser show ?thesis by (intro exI conjI) simp_all
qed

text \<open>The sample tree resolves with fuel for two levels of manifests.\<close>

theorem rewriting_preserves_lists_witness:
  "\<exists>w'. processKustomization (Suc (Suc 0)) sample_env sample_j ''app'' [] sample_world
          = Some (None, w')
     \<and> (\<exists>kust bytes k rs gs ts out.
       fst (findKustFile (Join [''app'', []]) sample_world) = Inr kust
     \<and> node_at sample_world kust = Some (Regular bytes)
     \<and> yaml_Unmarshal sample_env bytes = Some k
     \<and> length rs = length (Resources k) \<and> length gs = length (Generators k)
     \<and> length ts = length (Transformers k)
     \<and> list_all2 rewritten (Resources k) rs \<and> list_all2 rewritten (Generators k) gs
     \<and> list_all2 rewritten (Transformers k) ts
     \<and> yaml_Marshal sample_env (k\<lparr>Resources := rs, Generators := gs, Transformers := ts\<rparr>)
         = Some out
     \<and> node_at w' (QualifyOutput sample_j kust []) = Some (Regular out))"
proof -
  have "map_option fst
          (processKustomization (Suc (Suc 0)) sample_env sample_j ''app'' [] sample_world)
        = Some None"
    by code_simp
  then obtain w' where ok:
    "processKustomization (Suc (Suc 0)) sample_env sample_j ''app'' [] sample_world
       = Some (None, w')"
    by auto
  from rewriting_preserves_lists [OF ok] ok show ?thesis by blast
qed

section \<open>Nothing is removed\<close>

text \<open>
  Every call of the model leaves a world that extends the one it started in: the calls
  that read change no node, \<open>os_MkdirAll\<close> only adds directories where nothing was, and
  the calls that write put bytes where no directory is.
\<close>

lemma extends_refl [simp]: "extends w w"
  by (simp add: extends_def)

lemma extends_trans: "extends w1 w2 \<Longrightarrow> extends w2 w3 \<Longrightarrow> extends w1 w3"
  unfolding extends_def by (metis (no_types, lifting))

lemma extends_same: "files w' = files w \<Longrightarrow> cwd w' = cwd w \<Longrightarrow> extends w w'"
  by (simp add: extends_def)

lemma extends_log_Printf [simp]: "extends w (log_Printf msg w)"
  by (simp add: extends_same)

lemma extends_traced [simp]: "extends w (traced a w)"
  by (simp add: extends_same traced_def)

lemma extends_regular_at: "extends w w' \<Longrightarrow> regular_at w name \<Longrightarrow> regular_at w' name"
  by (auto simp: extends_def regular_at_def node_at_def node_of_def locate_def
      split: option.splits node.splits if_splits)

lemma mkdir_path_keeps:
  "mkdir_path fs pre cs = (ok, fs') \<Longrightarrow> fs p \<noteq> None \<Longrightarrow> fs' p = fs p"
proof (induction cs arbitrary: fs pre)
  case Nil
  then show ?case by simp
next
  case (Cons c cs)
  show ?case
  proof (cases "fs (pre @ [c])")
    case None
    with Cons.prems have "mkdir_path (fs(pre @ [c] \<mapsto> Directory)) (pre @ [c]) cs = (ok, fs')"
      by simp
    moreover have "(fs(pre @ [c] \<mapsto> Directory)) p \<noteq> None" using Cons.prems by simp
    ultimately have "fs' p = (fs(pre @ [c] \<mapsto> Directory)) p" by (rule Cons.IH)
    then show ?thesis using None Cons.prems by auto
  next
    case (Some nd)
    then show ?thesis using Cons by (cases nd) auto
  qed
qed

lemma extends_os_MkdirAll: "os_MkdirAll name w = (r, w') \<Longrightarrow> extends w w'"
  by (auto simp: os_MkdirAll_def Let_def traced_def extends_def
      split: if_splits prod.splits dest: mkdir_path_keeps)

lemma extends_os_Stat: "os_Stat name w = (r, w') \<Longrightarrow> extends w w'"
  by (auto simp: os_Stat_def)

lemma extends_os_Lstat: "os_Lstat name w = (r, w') \<Longrightarrow> extends w w'"
  by (auto simp: os_Lstat_def)

lemma extends_os_Open: "os_Open name w = (r, w') \<Longrightarrow> extends w w'"
  by (auto simp: os_Open_def)

lemma extends_ioutil_ReadFile: "ioutil_ReadFile name w = (r, w') \<Longrightarrow> extends w w'"
  by (auto simp: ioutil_ReadFile_def)

lemma extends_os_Create: "os_Create name w = (r, w') \<Longrightarrow> extends w w'"
  by (auto simp: os_Create_def Let_def traced_def extends_def node_of_def split: if_splits)

lemma extends_file_Write: "file_Write f bytes w = (r, w') \<Longrightarrow> extends w w'"
  by (auto simp: file_Write_def Let_def traced_def extends_def node_of_def
      split: if_splits option.splits node.splits)

lemma extends_io_Copy: "io_Copy dst src w = (r, w') \<Longrightarrow> extends w w'"
  by (auto simp: io_Copy_def Let_def traced_def extends_def node_of_def
      split: if_splits option.splits node.splits)

lemma extends_run_jsonnet: "run_jsonnet ev outputFile qPath w = (r, w') \<Longrightarrow> extends w w'"
  by (auto simp: run_jsonnet_def Let_def traced_def extends_def node_of_def
      split: if_splits option.splits prod.splits)

lemma extends_copyFile: "copyFile src dest w = (r, w') \<Longrightarrow> extends w w'"
  unfolding copyFile_def
  by (auto split: prod.splits option.splits sum.splits
      dest!: extends_os_MkdirAll extends_os_Open extends_os_Create extends_io_Copy
      intro: extends_trans)

lemma extends_findKustFile: "findKustFile root w = (r, w') \<Longrightarrow> extends w w'"
  by (auto dest!: findKustFile_world intro: extends_same)

lemma extends_processFileRef: "processFileRef ev j root path w = (r, w') \<Longrightarrow> extends w w'"
proof -
  assume a: "processFileRef ev j root path w = (r, w')"
  let ?q = "Join [root, path]"
  consider (remote) "\<not> isLocalFile ev ?q"
    | (render) "isLocalFile ev ?q" "isJsonnetFile ?q \<and> \<not> IsAbs path"
    | (copy) "isLocalFile ev ?q" "\<not> (isJsonnetFile ?q \<and> \<not> IsAbs path)"
    by blast
  then show ?thesis
  proof cases
    case remote
    with a show ?thesis by (auto simp: processFileRef_def Let_def)
  next
    case render
    let ?w1 = "log_Printf (''Running jsonnet on '' @ ?q) w"
    let ?o = "QualifyOutput j root path @ ''.yml''"
    obtain e w2 where mk: "os_MkdirAll (Dir ?o) ?w1 = (e, w2)"
      by (cases "os_MkdirAll (Dir ?o) ?w1")
    have e2: "extends w w2"
      using extends_os_MkdirAll [OF mk] extends_log_Printf extends_trans by blast
    show ?thesis
    proof (cases e)
      case (Some err)
      with a render mk have "w' = w2" by (simp add: processFileRef_def Let_def)
      with e2 show ?thesis by simp
    next
      case None
      obtain out err w3 where run: "run_jsonnet ev ?o ?q w2 = ((out, err), w3)"
        by (cases "run_jsonnet ev ?o ?q w2") auto
      have e3: "extends w w3" using e2 extends_run_jsonnet [OF run] extends_trans by blast
      from a render mk None run have "w' = (if 0 < length out then log_Printf out w3 else w3)"
        by (cases err) (simp_all add: processFileRef_def Let_def)
      then have "extends w3 w'" by simp
      with e3 show ?thesis using extends_trans by blast
    qed
  next
    case copy
    obtain e w1 where c: "copyFile ?q (QualifyOutput j root path) w = (e, w1)"
      by (cases "copyFile ?q (QualifyOutput j root path) w")
    with a copy have "w' = w1" by (cases e) (auto simp: processFileRef_def Let_def)
    with extends_copyFile [OF c] show ?thesis by simp
  qed
qed

text \<open>
  The three resolver functions extend the world whenever they return. The proof follows
  the calls: the loop for a fuel rests on \<open>processResource\<close> for that fuel, which rests on
  \<open>processKustomization\<close> for it, which rests on the loop for one unit less.
\<close>

lemma extends_loop_from_resource:
  assumes R: "\<And>root path w r w'.
      processResource n ev j root path w = Some (r, w') \<Longrightarrow> extends w w'"
  shows "processTypes_loop n ev j root kustType acc paths w = Some (r, w') \<Longrightarrow> extends w w'"
proof (induction paths arbitrary: acc w)
  case Nil
  then show ?case by auto
next
  case (Cons path paths)
  show ?case
  proof (cases "path = []")
    case True
    with Cons.prems show ?thesis by auto
  next
    case False
    let ?w1 = "log_Printf (''Processing '' @ kustTypeMap kustType @ '': '' @ path) w"
    let ?step = "case kustType of
                   ResourceType \<Rightarrow> processResource n ev j root path ?w1
                 | PluginType \<Rightarrow> Some (processPlugin ev j root path ?w1)"
    from Cons.prems False obtain s w2 where step: "?step = Some (s, w2)"
      by (auto simp: Let_def simp del: append.simps split: option.splits prod.splits)
    have "extends ?w1 w2"
      using step
      by (cases kustType) (auto simp: processPlugin_def dest: R extends_processFileRef)
    then have e2: "extends w w2" using extends_log_Printf extends_trans by blast
    show ?thesis
    proof (cases s)
      case (Inl err)
      with Cons.prems False step have "w' = w2"
        by (auto simp: Let_def simp del: append.simps)
      with e2 show ?thesis by simp
    next
      case (Inr u)
      with Cons.prems False step have
        "processTypes_loop n ev j root kustType (acc @ [u]) paths w2 = Some (r, w')"
        by (auto simp: Let_def simp del: append.simps)
      from Cons.IH [OF this] e2 show ?thesis using extends_trans by blast
    qed
  qed
qed

lemma extends_resource_from_kustomization:
  assumes K: "\<And>oldRoot resource w r w'.
      processKustomization n ev j oldRoot resource w = Some (r, w') \<Longrightarrow> extends w w'"
  shows "processResource n ev j root path w = Some (r, w') \<Longrightarrow> extends w w'"
proof -
  assume a: "processResource n ev j root path w = Some (r, w')"
  obtain s w1 where ls: "os_Lstat (Join [root, path]) w = (s, w1)"
    by (cases "os_Lstat (Join [root, path]) w")
  have e1: "extends w w1" by (rule extends_os_Lstat [OF ls])
  show ?thesis
  proof (cases s)
    case (Inl err)
    with a ls have "w' = w1" by (simp add: processResource.simps)
    with e1 show ?thesis by simp
  next
    case (Inr si)
    show ?thesis
    proof (cases "IsDir si")
      case True
      with a ls Inr obtain r2 where
        "processKustomization n ev j root path w1 = Some (r2, w')"
        by (auto simp: processResource.simps split: option.splits prod.splits)
      from K [OF this] e1 show ?thesis using extends_trans by blast
    next
      case False
      with a ls Inr obtain r2 where "processFileRef ev j root path w1 = (r2, w')"
        by (auto simp: processResource.simps split: prod.splits sum.splits)
      from extends_processFileRef [OF this] e1 show ?thesis using extends_trans by blast
    qed
  qed
qed

lemma extends_kustomization_from_loop:
  assumes L: "\<And>root kustType acc paths w r w'.
      processTypes_loop n ev j root kustType acc paths w = Some (r, w') \<Longrightarrow> extends w w'"
  shows "processKustomization (Suc n) ev j oldRoot resource w = Some (r, w') \<Longrightarrow> extends w w'"
proof -
  assume a: "processKustomization (Suc n) ev j oldRoot resource w = Some (r, w')"
  let ?root = "Join [oldRoot, resource]"
  note ext = extends_findKustFile extends_ioutil_ReadFile extends_os_Create extends_file_Write L
  from a show ?thesis
    unfolding processKustomization.simps Let_def
    by (auto split: prod.splits sum.splits option.splits dest!: ext)
       (meson extends_trans)+
qed

lemma extends_processKustomization:
  "processKustomization n ev j oldRoot resource w = Some (r, w') \<Longrightarrow> extends w w'"
proof (induction n arbitrary: oldRoot resource w r w')
  case 0
  then show ?case by (simp add: processKustomization.simps)
next
  case (Suc n)
  have R: "\<And>root path w r w'.
      processResource n ev j root path w = Some (r, w') \<Longrightarrow> extends w w'"
    by (rule extends_resource_from_kustomization) (rule Suc.IH)
  have L: "\<And>root kustType acc paths w r w'.
      processTypes_loop n ev j root kustType acc paths w = Some (r, w') \<Longrightarrow> extends w w'"
    by (rule extends_loop_from_resource) (rule R)
  show ?case by (rule extends_kustomization_from_loop [OF L Suc.prems])
qed

lemma extends_processResource:
  "processResource n ev j root path w = Some (r, w') \<Longrightarrow> extends w w'"
  by (rule extends_resource_from_kustomization) (rule extends_processKustomization)

lemma extends_processTypes_loop:
  "processTypes_loop n ev j root kustType acc paths w = Some (r, w') \<Longrightarrow> extends w w'"
  by (rule extends_loop_from_resource) (rule extends_processResource)

section \<open>Writing the manifest\<close>

text \<open>Where a path leads depends on the working directory only.\<close>

lemma locate_cong: "cwd w' = cwd w \<Longrightarrow> locate w' name = locate w name"
  by (simp add: locate_def)

lemma locate_traced [simp]: "locate (traced a w) name = locate w name"
  by (simp add: locate_def traced_def)

lemma files_traced [simp]: "files (traced a w) = files w"
  by (simp add: traced_def)

lemma os_Create_no_holder:
  assumes "node_of (files w) (holder w name) \<noteq> Some Directory"
  shows "os_Create name w = (Inl (PathError ''open'' name), traced (CreateCall name) w)"
  using assms by (simp add: os_Create_def holder_def Let_def)

text \<open>
  Claim C10. The manifest is written with \<^verbatim>\<open>os.Create\<close>, which makes no directory. Take a
  manifest that is found, read and parsed and whose three lists resolve without error and
  leave the files as they were (no replication happened). If the directory that is to
  hold the output manifest is not an existing directory, \<open>processKustomization\<close> fails
  at the write step with the \<^verbatim>\<open>open\<close> error of \<^verbatim>\<open>os.Create\<close>, and the only call after the
  lists is that \<^verbatim>\<open>Create\<close>. The second part is the case of three empty lists.
\<close>

theorem manifest_write_creates_no_directory:
  "(\<forall>kust w1 bytes w2 k rs w3 gs w4 ts w5.
      findKustFile (Join [oldRoot, resource]) w = (Inr kust, w1)
    \<and> ioutil_ReadFile kust w1 = (Inr bytes, w2)
    \<and> yaml_Unmarshal ev bytes = Some k
    \<and> processTypes_loop n ev j (Join [oldRoot, resource]) ResourceType [] (Resources k) w2
         = Some (Inr rs, w3)
    \<and> processTypes_loop n ev j (Join [oldRoot, resource]) PluginType [] (Generators k) w3
         = Some (Inr gs, w4)
    \<and> processTypes_loop n ev j (Join [oldRoot, resource]) PluginType [] (Transformers k) w4
         = Some (Inr ts, w5)
    \<and> files w5 = files w
    \<and> node_of (files w) (holder w (QualifyOutput j kust [])) \<noteq> Some Directory
    \<longrightarrow> processKustomization (Suc n) ev j oldRoot resource w
          = Some (Some (PathError ''open'' (QualifyOutput j kust [])),
                  traced (CreateCall (QualifyOutput j kust [])) w5))
   \<and> (\<forall>kust w1 bytes w2 k.
      findKustFile (Join [oldRoot, resource]) w = (Inr kust, w1)
    \<and> ioutil_ReadFile kust w1 = (Inr bytes, w2)
    \<and> yaml_Unmarshal ev bytes = Some k
    \<and> Resources k = [] \<and> Generators k = [] \<and> Transformers k = []
    \<and> node_of (files w) (holder w (QualifyOutput j kust [])) \<noteq> Some Directory
    \<longrightarrow> processKustomization (Suc n) ev j oldRoot resource w
          = Some (Some (PathError ''open'' (QualifyOutput j kust [])),
                  traced (CreateCall (QualifyOutput j kust [])) w2)
        \<and> files w2 = files w)"
proof -
  have general: "processKustomization (Suc n) ev j oldRoot resource w
          = Some (Some (PathError ''open'' (QualifyOutput j kust [])),
                  traced (CreateCall (QualifyOutput j kust [])) w5)"
    if find: "findKustFile (Join [oldRoot, resource]) w = (Inr kust, w1)"
      and read: "ioutil_ReadFile kust w1 = (Inr bytes, w2)"
      and parse: "yaml_Unmarshal ev bytes = Some k"
      and r: "processTypes_loop n ev j (Join [oldRoot, resource]) ResourceType []
                (Resources k) w2 = Some (Inr rs, w3)"
      and g: "processTypes_loop n ev j (Join [oldRoot, resource]) PluginType []
                (Generators k) w3 = Some (Inr gs, w4)"
      and t: "processTypes_loop n ev j (Join [oldRoot, resource]) PluginType []
                (Transformers k) w4 = Some (Inr ts, w5)"
      and same: "files w5 = files w"
      and nodir: "node_of (files w) (holder w (QualifyOutput j kust [])) \<noteq> Some Directory"
    for kust w1 bytes w2 k rs w3 gs w4 ts w5
  proof -
    have "extends w w5"
      using extends_findKustFile [OF find] extends_ioutil_ReadFile [OF read]
        extends_processTypes_loop [OF r] extends_processTypes_loop [OF g]
        extends_processTypes_loop [OF t]
      by (meson extends_trans)
    then have "cwd w5 = cwd w" by (simp add: extends_def)
    then have "holder w5 (QualifyOutput j kust []) = holder w (QualifyOutput j kust [])"
      using locate_cong [of w5 w] by (simp add: holder_def)
    with same nodir have
      "node_of (files w5) (holder w5 (QualifyOutput j kust [])) \<noteq> Some Directory"
      by simp
    from os_Create_no_holder [OF this] find read parse r g t show ?thesis
      by (simp add: processKustomization.simps)
  qed
  have empty: "processKustomization (Suc n) ev j oldRoot resource w
          = Some (Some (PathError ''open'' (QualifyOutput j kust [])),
                  traced (CreateCall (QualifyOutput j kust [])) w2)
        \<and> files w2 = files w"
    if find: "findKustFile (Join [oldRoot, resource]) w = (Inr kust, w1)"
      and read: "ioutil_ReadFile kust w1 = (Inr bytes, w2)"
      and parse: "yaml_Unmarshal ev bytes = Some k"
      and nil: "Resources k = []" "Generators k = []" "Transformers k = []"
      and nodir: "node_of (files w) (holder w (QualifyOutput j kust [])) \<noteq> Some Directory"
    for kust w1 bytes w2 k
  proof -
    have same: "files w2 = files w"
      using findKustFile_world [OF find] ioutil_ReadFile_Inr [OF read] by simp
    have "processTypes_loop n ev j (Join [oldRoot, resource]) ResourceType []
            (Resources k) w2 = Some (Inr [], w2)"
      "processTypes_loop n ev j (Join [oldRoot, resource]) PluginType []
            (Generators k) w2 = Some (Inr [], w2)"
      "processTypes_loop n ev j (Join [oldRoot, resource]) PluginType []
            (Transformers k) w2 = Some (Inr [], w2)"
      using nil by simp_all
    from general [OF find read parse this same nodir] same show ?thesis by simp
  qed
  show ?thesis using general empty by blast
qed

text \<open>
  \<^verbatim>\<open>bare\<close> of the sample tree has three empty lists and \<^verbatim>\<open>/out/bare\<close> does not exist.
\<close>

theorem manifest_write_creates_no_directory_witness:
  "node_of (files sample_world) (holder sample_world ''/out/bare/kustomization.yml'')
     \<noteq> Some Directory
   \<and> map_option fst (processKustomization (Suc 0) sample_env sample_j ''bare'' [] sample_world)
       = Some (Some (PathError ''open'' ''/out/bare/kustomization.yml''))"
proof -
  let ?kust = "''bare/kustomization.yml''"
  have J: "Join [''bare'', []] = ''bare''"
    "QualifyOutput sample_j ?kust [] = ''/out/bare/kustomization.yml''"
    by code_simp+
  obtain r1 w1 where find: "findKustFile ''bare'' sample_world = (r1, w1)"
    by (cases "findKustFile ''bare'' sample_world")
  have "fst (findKustFile ''bare'' sample_world) = Inr ?kust" by code_simp
  with find have r1: "r1 = Inr ?kust" by simp
  have n0: "node_at sample_world ?kust = Some (Regular ''empty manifest'')" by code_simp
  have "node_at w1 ?kust = node_at sample_world ?kust"
    using findKustFile_world [OF find] by (intro node_at_cong) simp_all
  with n0 have read: "ioutil_ReadFile ?kust w1
      = (Inr ''empty manifest'', traced (ReadFileCall ?kust) w1)"
    by (simp add: ioutil_ReadFile_def)
  have parse: "yaml_Unmarshal sample_env ''empty manifest''
      = Some \<lparr>Resources = [], Generators = [], Transformers = [], Other = []\<rparr>"
    by (simp add: sample_env_def sample_Unmarshal_def)
  have nodir: "node_of (files sample_world) (holder sample_world ''/out/bare/kustomization.yml'')
     \<noteq> Some Directory"
    by code_simp
  from manifest_write_creates_no_directory
    [of "''bare''" "[]" sample_world sample_env 0 sample_j]
    find r1 read parse nodir
  have "processKustomization (Suc 0) sample_env sample_j ''bare'' [] sample_world
          = Some (Some (PathError ''open'' ''/out/bare/kustomization.yml''),
                  traced (CreateCall ''/out/bare/kustomization.yml'')
                    (traced (ReadFileCall ?kust) w1))"
    by (simp add: J)
  with nodir show ?thesis by simp
qed

section \<open>A resource that is a directory\<close>

text \<open>A directory of an earlier world is one of every world that extends it.\<close>

lemma extends_directory:
  "extends w w' \<Longrightarrow> node_at w name = Some Directory \<Longrightarrow> node_at w' name = Some Directory"
  by (auto simp: extends_def node_at_def node_of_def locate_def split: if_splits)

lemma findKustFile_Inr:
  "findKustFile root w = (Inr kust, w') \<Longrightarrow>
   kust = Join [root, ''kustomization.yml''] \<or> kust = Join [root, ''kustomization.yaml'']"
  by (auto simp: findKustFile_def Let_def split: prod.splits sum.splits if_splits)

text \<open>One turn of the loop that ends well: the entry is not empty and resolves.\<close>

lemma processTypes_loop_Cons_Inr:
  assumes "processTypes_loop n ev j root ResourceType acc (path # paths) w = Some (Inr out, w')"
  shows "\<exists>msg u w2. path \<noteq> []
     \<and> processResource n ev j root path (log_Printf msg w) = Some (Inr u, w2)
     \<and> processTypes_loop n ev j root ResourceType (acc @ [u]) paths w2 = Some (Inr out, w')"
  using assms
  by (auto simp: Let_def simp del: append.simps
      split: if_splits option.splits prod.splits sum.splits)

text \<open>
  \<open>processResource\<close> on a directory recurses: it returns what \<open>processKustomization\<close>
  returns on the directory, and the reference as it was.
\<close>

lemma processResource_directory:
  assumes dir: "node_at w (Join [root, path]) = Some Directory"
    and ok: "processResource n ev j root path w = Some (Inr u, w')"
  shows "u = path \<and>
     processKustomization n ev j root path (traced (LstatCall (Join [root, path])) w)
       = Some (None, w')"
proof -
  have "os_Lstat (Join [root, path]) w
      = (Inr (fileinfo (Join [root, path]) Directory), traced (LstatCall (Join [root, path])) w)"
    using dir by (simp add: os_Lstat_def)
  with ok show ?thesis
    by (auto simp: processResource.simps fileinfo_def split: option.splits prod.splits)
qed

text \<open>A successful resolution leaves its rewritten manifest as a regular file.\<close>

lemma processKustomization_leaves_manifest:
  assumes "processKustomization n ev j oldRoot resource w = Some (None, w')"
  shows "\<exists>kust. (kust = Join [Join [oldRoot, resource], ''kustomization.yml'']
               \<or> kust = Join [Join [oldRoot, resource], ''kustomization.yaml''])
            \<and> regular_at w' (QualifyOutput j kust [])"
proof (cases n)
  case 0
  with assms show ?thesis by (simp add: processKustomization.simps)
next
  case (Suc m)
  from processKustomization_success [OF assms [unfolded Suc]]
  obtain kust w1 f w5 w6 out where
    find: "findKustFile (Join [oldRoot, resource]) w = (Inr kust, w1)" and
    cr: "os_Create (QualifyOutput j kust []) w5 = (Inr f, w6)" and
    wr: "file_Write f out w6 = (None, w')"
    by blast
  have "node_at w' (QualifyOutput j kust []) = Some (Regular out)"
    by (rule created_and_written [OF cr wr])
  then have "regular_at w' (QualifyOutput j kust [])" by (simp add: regular_at_def)
  with findKustFile_Inr [OF find] show ?thesis by blast
qed



section \<open>The argument of the Tree Driver\<close>

text \<open>
  Claim C4, as the source has it. For an argument that is not a directory \<^verbatim>\<open>main\<close> tests
  \<^verbatim>\<open>si.Name() != "kustomization.yml" || si.Name() != "kustomization.yaml"\<close> and dies
  with "Argument must be a kustomization root or yaml file" when the test holds; only
  past it would the containing directory become the root. So an existing regular file
  whose name is neither of the two manifest names is refused: the result is
  \<open>BadArgument\<close>, the only call made is the \<^verbatim>\<open>Stat\<close> of the argument, and
  \<open>processKustomization\<close> is not reached.
\<close>

theorem main_rejects_other_files:
  assumes isfile: "node_at w kustRoot = Some (Regular bytes)"
    and other: "basename kustRoot \<noteq> ''kustomization.yml''"
               "basename kustRoot \<noteq> ''kustomization.yaml''"
  shows "main n ev output (kustRoot # args) w
           = Some (Some BadArgument, traced (StatCall kustRoot) w)"
  using isfile other by (simp add: main_def os_Stat_def fileinfo_def Let_def)

text \<open>\<^verbatim>\<open>app/notes.txt\<close> of the sample tree is such a file.\<close>

theorem main_rejects_other_files_witness:
  "node_at sample_world ''app/notes.txt'' = Some (Regular ''to do'')
   \<and> basename ''app/notes.txt'' = ''notes.txt''
   \<and> main (Suc (Suc 0)) sample_env ''/out'' [''app/notes.txt''] sample_world
       = Some (Some BadArgument, traced (StatCall ''app/notes.txt'') sample_world)"
proof -
  have isfile: "node_at sample_world ''app/notes.txt'' = Some (Regular ''to do'')" by code_simp
  have name: "basename ''app/notes.txt'' = ''notes.txt''" by code_simp
  from main_rejects_other_files [OF isfile, of "Suc (Suc 0)" sample_env "''/out''" "[]"] name isfile
  show ?thesis by simp
qed

text \<open>
  The claim as the specification states it (every regular file is accepted and its
  directory resolved) fails on that file: \<^verbatim>\<open>main\<close> ends with the error after one call.
\<close>

theorem file_argument_counterexample:
  "node_at sample_world ''app/notes.txt'' = Some (Regular ''to do'')
   \<and> map_option fst (main (Suc (Suc 0)) sample_env ''/out'' [''app/notes.txt''] sample_world)
       = Some (Some BadArgument)
   \<and> trace (snd (the (main (Suc (Suc 0)) sample_env ''/out'' [''app/notes.txt''] sample_world)))
       = [StatCall ''app/notes.txt'']"
  by code_simp

text \<open>
  The test of the source is a disjunction of two inequalities with different constants,
  so it holds of every name: a file named \<^verbatim>\<open>kustomization.yml\<close> or
  \<^verbatim>\<open>kustomization.yaml\<close> is refused as well, and \<^verbatim>\<open>filepath.Dir(kustRoot)\<close> is never
  reached.
\<close>

lemma main_rejects_every_file:
  "node_at w kustRoot = Some (Regular bytes) \<Longrightarrow>
   main n ev output (kustRoot # args) w = Some (Some BadArgument, traced (StatCall kustRoot) w)"
  by (auto simp: main_def os_Stat_def fileinfo_def Let_def)

section \<open>Classification: what the source does\<close>

text \<open>
  A reference whose joined path is not local is left alone: the result is the reference,
  and the world changes by one log line only.
\<close>

lemma processFileRef_not_local:
  "\<not> isLocalFile ev (Join [root, path]) \<Longrightarrow>
   processFileRef ev j root path w
     = (Inr path,
        log_Printf (Join [root, path] @ '' is not a local file; leaving it alone'') w)"
  by (simp add: processFileRef_def Let_def)

text \<open>
  \<open>copyFile\<close>, when it succeeds, leaves source and destination as regular files with the
  same bytes; and unless both are one file these are the bytes the source had before.
\<close>

lemma mkdir_path_makes_directories:
  "mkdir_path fs pre cs = (ok, fs') \<Longrightarrow> fs p = None \<Longrightarrow>
   fs' p = None \<or> fs' p = Some Directory"
proof (induction cs arbitrary: fs pre)
  case Nil
  then show ?case by simp
next
  case (Cons c cs)
  show ?case
  proof (cases "fs (pre @ [c])")
    case None
    with Cons.prems have m: "mkdir_path (fs(pre @ [c] \<mapsto> Directory)) (pre @ [c]) cs = (ok, fs')"
      by simp
    show ?thesis
    proof (cases "p = pre @ [c]")
      case True
      have "(fs(pre @ [c] \<mapsto> Directory)) p \<noteq> None" using True by simp
      from mkdir_path_keeps [OF m this] True show ?thesis by simp
    next
      case False
      with Cons.prems have "(fs(pre @ [c] \<mapsto> Directory)) p = None" by simp
      from Cons.IH [OF m this] show ?thesis .
    qed
  next
    case (Some nd)
    then show ?thesis using Cons by (cases nd) auto
  qed
qed

lemma os_MkdirAll_keeps:
  assumes "os_MkdirAll name w = (r, w')" and "node_of (files w) p \<noteq> None"
  shows "node_of (files w') p = node_of (files w) p \<and> cwd w' = cwd w"
proof -
  from assms(1) obtain ok fs where
    m: "name \<noteq> [] \<longrightarrow> mkdir_path (files w) [] (locate w name) = (ok, fs) \<and> files w' = fs"
    and c: "cwd w' = cwd w" and e: "name = [] \<longrightarrow> files w' = files w"
    by (cases "mkdir_path (files w) [] (locate w name)")
       (auto simp: os_MkdirAll_def Let_def traced_def locate_def split: if_splits)
  show ?thesis
  proof (cases "name = []")
    case True
    with e c show ?thesis by simp
  next
    case False
    with m have mk: "mkdir_path (files w) [] (locate w name) = (ok, files w')" by simp
    show ?thesis
    proof (cases "p = []")
      case True
      with c show ?thesis by (simp add: node_of_def)
    next
      case False
      with assms(2) have "files w p \<noteq> None" by (simp add: node_of_def)
      from mkdir_path_keeps [OF mk this] False c show ?thesis by (simp add: node_of_def)
    qed
  qed
qed

lemma os_Open_Inr:
  "os_Open name w = (Inr f, w') \<Longrightarrow>
   f = locate w name \<and> node_of (files w) f \<noteq> None \<and> files w' = files w \<and> cwd w' = cwd w"
  by (auto simp: os_Open_def traced_def node_at_def split: option.splits if_splits)

lemma io_Copy_None:
  "io_Copy dst src w = (None, w') \<Longrightarrow>
   \<exists>bytes old. node_of (files w) src = Some (Regular bytes)
     \<and> node_of (files w) dst = Some (Regular old)
     \<and> files w' = (files w)(dst \<mapsto> Regular (old @ bytes)) \<and> cwd w' = cwd w"
  by (auto simp: io_Copy_def Let_def traced_def split: option.splits node.splits)

lemma copyFile_copies:
  assumes ok: "copyFile src dest w = (None, w')"
  shows "\<exists>bytes. node_at w' dest = Some (Regular bytes) \<and> node_at w' src = Some (Regular bytes)
           \<and> (locate w src \<noteq> locate w dest \<longrightarrow> node_at w src = Some (Regular bytes))"
proof -
  from ok obtain w1 s w2 d w3 where
    mk: "os_MkdirAll (Dir dest) w = (None, w1)" and
    op: "os_Open src w1 = (Inr s, w2)" and
    cr: "os_Create dest w2 = (Inr d, w3)" and
    cp: "io_Copy d s w3 = (None, w')"
    by (auto simp: copyFile_def split: prod.splits option.splits sum.splits)
  from os_Open_Inr [OF op] have s: "s = locate w1 src" "node_of (files w1) s \<noteq> None"
    "files w2 = files w1" "cwd w2 = cwd w1" by auto
  from os_Create_Inr [OF cr] have d: "dest \<noteq> []" "d \<noteq> []" "d = locate w2 dest"
    "cwd w3 = cwd w2" "files w3 = (files w2)(d \<mapsto> Regular [])" by auto
  from io_Copy_None [OF cp] obtain bytes old where c:
    "node_of (files w3) s = Some (Regular bytes)" "node_of (files w3) d = Some (Regular old)"
    "files w' = (files w3)(d \<mapsto> Regular (old @ bytes))" "cwd w' = cwd w3" by auto
  have cw: "cwd w1 = cwd w" using extends_os_MkdirAll [OF mk] by (simp add: extends_def)
  have loc: "locate w' dest = d" "locate w' src = s" "locate w src = s" "locate w dest = d"
    using s d c cw by (simp_all add: locate_def)
  have srcne: "src \<noteq> []" using op by (auto simp: os_Open_def node_at_def split: if_splits)
  have old: "old = []" using c(2) d by (simp add: node_of_def)
  have sne: "s \<noteq> []" using c(1) by (auto simp: node_of_def split: if_splits)
  have dst: "node_at w' dest = Some (Regular bytes)"
    using c(3) d loc old by (simp add: node_at_def node_of_def)
  have src': "node_at w' src = Some (Regular bytes)"
  proof (cases "s = d")
    case True
    with c(1) d sne have "bytes = []" by (simp add: node_of_def)
    with True c(3) old loc srcne sne show ?thesis by (simp add: node_at_def node_of_def)
  next
    case False
    with c(1) c(3) loc srcne sne d show ?thesis by (simp add: node_at_def node_of_def)
  qed
  have before: "node_at w src = Some (Regular bytes)" if "locate w src \<noteq> locate w dest"
  proof -
    from that loc have "s \<noteq> d" by simp
    with c(1) d s have 1: "node_of (files w1) s = Some (Regular bytes)"
      by (simp add: node_of_def split: if_splits)
    have "node_of (files w) s \<noteq> None \<Longrightarrow> node_of (files w1) s = node_of (files w) s"
      using os_MkdirAll_keeps [OF mk] by simp
    moreover have "node_of (files w) s \<noteq> None"
    proof
      assume n: "node_of (files w) s = None"
      then have "files w s = None" using sne by (simp add: node_of_def)
      \<comment> \<open>a node that \<open>MkdirAll\<close> made is a directory\<close>
      from mk obtain ok where
        "mkdir_path (files w) [] (locate w (Dir dest)) = (ok, files w1)"
        by (cases "mkdir_path (files w) [] (locate w (Dir dest))")
           (auto simp: os_MkdirAll_def Let_def traced_def locate_def split: if_splits)
      from mkdir_path_makes_directories [OF this \<open>files w s = None\<close>] 1 sne
      show False by (auto simp: node_of_def)
    qed
    ultimately show ?thesis using 1 loc srcne by (simp add: node_at_def)
  qed
  from dst src' before show ?thesis by blast
qed

text \<open>
  A local reference that is not taken for a template is copied, and the reference stays
  as it is.
\<close>

lemma processFileRef_literal:
  assumes loc: "isLocalFile ev (Join [root, path])"
    and lit: "\<not> (isJsonnetFile (Join [root, path]) \<and> \<not> IsAbs path)"
    and ok: "processFileRef ev j root path w = (Inr u, w')"
  shows "u = path \<and>
     (\<exists>bytes. node_at w' (QualifyOutput j root path) = Some (Regular bytes)
        \<and> node_at w' (Join [root, path]) = Some (Regular bytes)
        \<and> (locate w (Join [root, path]) \<noteq> locate w (QualifyOutput j root path)
             \<longrightarrow> node_at w (Join [root, path]) = Some (Regular bytes)))"
proof -
  obtain e w1 where c: "copyFile (Join [root, path]) (QualifyOutput j root path) w = (e, w1)"
    by (cases "copyFile (Join [root, path]) (QualifyOutput j root path) w")
  with ok loc lit have "e = None" "u = path" "w1 = w'"
    by (cases e; auto simp: processFileRef_def Let_def)+
  with c copyFile_copies [of "Join [root, path]" "QualifyOutput j root path" w w']
  show ?thesis by simp
qed

text \<open>
  Which local references \<open>processFileRef\<close> renders: those given by a relative path whose
  joined path ends in \<^verbatim>\<open>.jsonnet\<close> or is seven bytes long.
\<close>

lemma rendered_iff:
  "isJsonnetFile (Join [root, path]) \<and> \<not> IsAbs path \<longleftrightarrow>
   (suffix ''.jsonnet'' (Join [root, path]) \<or> length (Join [root, path]) = 7) \<and> \<not> IsAbs path"
  by (simp add: isJsonnetFile_iff)

section \<open>Where the source departs from the specification\<close>

text \<open>
  Claim C1 (the source departs from it). The claim wants a reference with a scheme that
  is neither empty nor \<^verbatim>\<open>file\<close> left as it is, without any file system action.
  \<open>processFileRef\<close> parses the joined path \<open>Join [root, path]\<close>, not the reference, and
  under a root other than \<^verbatim>\<open>.\<close> the joined path of a URL begins with the root and has no
  scheme; \<open>processResource\<close> stats every resource before it is classified. Evaluated
  in the sample tree under the root \<^verbatim>\<open>app\<close>, for the reference
  \<^verbatim>\<open>https://example.com/plugin.yml\<close> (scheme \<^verbatim>\<open>https\<close>): as a resource it ends in the
  \<^verbatim>\<open>lstat\<close> error; as a generator or transformer it is taken for a local literal file,
  \<^verbatim>\<open>MkdirAll\<close> makes \<^verbatim>\<open>/out/app/https:/example.com\<close> (\<^verbatim>\<open>/out/app\<close> did not exist) and
  the copy ends in the \<^verbatim>\<open>open\<close> error.
\<close>

theorem remote_reference_evaluated:
  "sample_url_Parse ''https://example.com/plugin.yml'' = Some ''https''
   \<and> map_option fst
        (processResource (Suc 0) sample_env sample_j ''app'' ''https://example.com/plugin.yml''
           sample_world)
       = Some (Inl (PathError ''lstat'' ''app/https:/example.com/plugin.yml''))
   \<and> fst (processPlugin sample_env sample_j ''app'' ''https://example.com/plugin.yml''
             sample_world)
       = Inl (PathError ''open'' ''app/https:/example.com/plugin.yml'')
   \<and> trace (snd (processPlugin sample_env sample_j ''app'' ''https://example.com/plugin.yml''
                    sample_world))
       = [MkdirAllCall ''/out/app/https:/example.com'',
          OpenCall ''app/https:/example.com/plugin.yml'']
   \<and> files sample_world [''out'', ''app''] = None
   \<and> files (snd (processPlugin sample_env sample_j ''app'' ''https://example.com/plugin.yml''
                    sample_world)) [''out'', ''app'', ''https:'', ''example.com'']
       = Some Directory"
  by code_simp

text \<open>
  Claim C2 (the source departs from it). The claim wants a local reference rendered
  exactly when it ends in \<^verbatim>\<open>.jsonnet\<close> and is relative. \<open>isJsonnetFile\<close> compares
  \<^verbatim>\<open>strings.LastIndex(path, ".jsonnet")\<close> with \<^verbatim>\<open>len(path)-8\<close>; for a path of seven bytes
  both are \<open>-1\<close> (lemma \<open>isJsonnetFile_iff\<close>). Evaluated for the reference \<^verbatim>\<open>ns.yaml\<close>
  under the root \<^verbatim>\<open>.\<close>: the joined path is \<^verbatim>\<open>ns.yaml\<close>, it does not end in
  \<^verbatim>\<open>.jsonnet\<close>, it is local and relative, and it is classified as a jsonnet file. (A
  longer literal path such as \<^verbatim>\<open>app/base.yml\<close> is not.)
\<close>

theorem seven_byte_path_classified:
  "\<not> suffix ''.jsonnet'' ''ns.yaml''
   \<and> Join [''.'', ''ns.yaml''] = ''ns.yaml''
   \<and> LastIndex ''ns.yaml'' ''.jsonnet'' = - 1
   \<and> isLocalFile sample_env (Join [''.'', ''ns.yaml''])
   \<and> isJsonnetFile (Join [''.'', ''ns.yaml'']) \<and> \<not> IsAbs ''ns.yaml''
   \<and> \<not> isJsonnetFile (Join [''app'', ''base.yml''])"
  by code_simp

text \<open>
  Claim C6 (the source departs from it). The claim wants every local reference that does
  not use the template extension copied, the reference unchanged. By the same defect as
  for C2 the existing regular file \<^verbatim>\<open>ns.yaml\<close>, resolved as a resource under the root
  \<^verbatim>\<open>.\<close>, is rendered instead: the reference returned is \<^verbatim>\<open>ns.yaml.yml\<close>, \<^verbatim>\<open>jsonnet\<close> is
  run on it, and no file is made at \<^verbatim>\<open>/out/ns.yaml\<close>. (Every local reference that is
  not taken for a template is copied as the claim says: lemma
  \<open>processFileRef_literal\<close>.)
\<close>

theorem seven_byte_path_rendered:
  "node_at sample_world ''ns.yaml'' = Some (Regular ''{ kind: Namespace }'')
   \<and> map_option fst (processResource (Suc 0) sample_env sample_j ''.'' ''ns.yaml'' sample_world)
       = Some (Inr ''ns.yaml.yml'')
   \<and> trace (snd (the (processResource (Suc 0) sample_env sample_j ''.'' ''ns.yaml''
                         sample_world)))
       = [LstatCall ''ns.yaml'', MkdirAllCall ''/out'',
          ExecCall ''jsonnet'' [''-o'', ''/out/ns.yaml.yml'', ''ns.yaml'']]
   \<and> files (snd (the (processResource (Suc 0) sample_env sample_j ''.'' ''ns.yaml''
                         sample_world))) [''out'', ''ns.yaml''] = None
   \<and> files (snd (the (processResource (Suc 0) sample_env sample_j ''.'' ''ns.yaml''
                         sample_world))) [''out'', ''ns.yaml.yml'']
       = Some (Regular ''# rendered; { kind: Namespace }'')"
  by code_simp

text \<open>
  Claim C5 (the source departs from it). The claim wants every local reference that ends
  in \<^verbatim>\<open>.jsonnet\<close> and is relative rendered, the reference becoming the input with
  \<^verbatim>\<open>.yml\<close> appended. By the same defect as for C1, \<open>processFileRef\<close> decides locality
  on the joined path. Evaluated for the generator \<^verbatim>\<open>x.jsonnet\<close> of a manifest in the
  directory \<^verbatim>\<open>a:b\<close>, in any world and for any output root: the reference has no scheme
  (it is local), it ends in \<^verbatim>\<open>.jsonnet\<close> and is relative, but the joined path
  \<^verbatim>\<open>a:b/x.jsonnet\<close> has the scheme \<^verbatim>\<open>a\<close>; the result is a success with the reference
  unchanged, no call is made (the renderer is not run) and no file changes. (When the
  joined path is local the source does what the claim says: theorem
  \<open>jsonnet_reference_rendered\<close>.)
\<close>

theorem local_template_left_alone:
  "sample_url_Parse ''x.jsonnet'' = Some []
   \<and> suffix ''.jsonnet'' ''x.jsonnet'' \<and> \<not> IsAbs ''x.jsonnet''
   \<and> Join [''a:b'', ''x.jsonnet''] = ''a:b/x.jsonnet''
   \<and> sample_url_Parse ''a:b/x.jsonnet'' = Some ''a''
   \<and> processPlugin sample_env j ''a:b'' ''x.jsonnet'' w
       = (Inr ''x.jsonnet'',
          log_Printf ''a:b/x.jsonnet is not a local file; leaving it alone'' w)
   \<and> trace (snd (processPlugin sample_env j ''a:b'' ''x.jsonnet'' w)) = trace w
   \<and> files (snd (processPlugin sample_env j ''a:b'' ''x.jsonnet'' w)) = files w"
proof -
  have p: "sample_url_Parse ''x.jsonnet'' = Some []"
    "sample_url_Parse ''a:b/x.jsonnet'' = Some ''a''"
    "\<not> IsAbs ''x.jsonnet''"
    by code_simp+
  have s: "suffix ''.jsonnet'' ''x.jsonnet''" by (simp add: suffix_def)
  have J: "Join [''a:b'', ''x.jsonnet''] = ''a:b/x.jsonnet''" by code_simp
  have "\<not> isLocalFile sample_env (Join [''a:b'', ''x.jsonnet''])" by code_simp
  from processFileRef_not_local [OF this, of j w]
  have r: "processPlugin sample_env j ''a:b'' ''x.jsonnet'' w
       = (Inr ''x.jsonnet'',
          log_Printf ''a:b/x.jsonnet is not a local file; leaving it alone'' w)"
    by (simp add: processPlugin_def J)
  show ?thesis using p s J by (simp add: r)
qed

end
